theory Spec2Isabelle
  imports Main "HOL-Library.Word"
begin

section \<open>The ALSA output plugin (src/alsa/alsa.c)\<close>

text \<open>
  The plugin keeps its session in file-level globals, guarded by one mutex
  (\<open>alsa_mutex\<close>) and one condition variable (\<open>alsa_cond\<close>).  Every public function
  runs with the mutex held and releases it only inside \<open>pthread_cond_wait\<close> and, in the
  pump thread, around the blocking \<open>snd_pcm_writei\<close>.  The stretches of code between two
  such points are therefore atomic, and the embedding takes them as the steps of the
  system: a function of the caller's thread is a function on the record of globals, and
  what the other thread does while the caller is suspended is an explicit argument.
\<close>

subsection \<open>C arithmetic\<close>

text \<open>
  C's \<open>/\<close> and \<open>%\<close> truncate towards zero.  The conversion of an \<open>int64_t\<close> result
  to \<open>int\<close> is \<open>int_of_int64\<close> (two's complement wrap-around into 32 bits); the same
  function gives the result of an \<open>int\<close> operation that leaves the range of \<open>int\<close>, and
  \<open>wrap64\<close> that of an \<open>int64_t\<close> (or \<open>long\<close>) operation, as the compiled code
  computes them.  A division traps when the divisor is 0 and when the quotient does not
  fit (the least \<open>int64_t\<close> divided by -1): \<open>div64\<close>.  \<open>real_output_time\<close> and
  \<open>alsa_open_audio\<close>, which compute with whatever the device reports, wrap at every
  step.  The offsets and lengths of the ring buffer stay within its capacity, and the
  written time grows by the duration of the data written; they are plain integers.
\<close>

definition cdiv :: "int \<Rightarrow> int \<Rightarrow> int" where
  "cdiv a b = sgn a * sgn b * (\<bar>a\<bar> div \<bar>b\<bar>)"

definition crem :: "int \<Rightarrow> int \<Rightarrow> int" where
  "crem a b = a - b * cdiv a b"

definition int_of_int64 :: "int \<Rightarrow> int" where
  "int_of_int64 x = (x + 2147483648) mod 4294967296 - 2147483648"

definition is_int :: "int \<Rightarrow> bool" where
  "is_int x \<longleftrightarrow> - 2147483648 \<le> x \<and> x \<le> 2147483647"

definition wrap64 :: "int \<Rightarrow> int" where
  "wrap64 x = (x + 9223372036854775808) mod 18446744073709551616 - 9223372036854775808"

definition is_int64 :: "int \<Rightarrow> bool" where
  "is_int64 x \<longleftrightarrow> - 9223372036854775808 \<le> x \<and> x \<le> 9223372036854775807"

datatype fault =
    SIGFPE     \<comment> \<open>integer division by zero, or a quotient out of range\<close>
  | Blocked    \<comment> \<open>suspended in \<open>pthread_cond_wait\<close> and never woken again\<close>

definition div64 :: "int \<Rightarrow> int \<Rightarrow> fault + int" where
  "div64 a b =
     (if b = 0 \<or> (a = - 9223372036854775808 \<and> b = - 1) then Inl SIGFPE
      else Inr (cdiv a b))"

subsection \<open>The globals\<close>

type_synonym byte = "8 word"

text \<open>
  Where the pump thread stands: at the test of its \<open>while (! pump_quit)\<close> loop (which
  is also where it resumes after a \<open>pthread_cond_wait\<close> followed by \<open>continue\<close>), inside
  the blocking \<open>snd_pcm_writei\<close> with the mutex released (the argument is its local
  variable \<open>length\<close>, here \<open>len\<close>), or returned.
\<close>

datatype pump_pc = AtLoopTest | InWritei int | Returned

record alsa =
  alsa_handle :: bool                    \<comment> \<open>the PCM handle is open (not \<open>NULL\<close>)\<close>
  frame_bytes :: int                     \<comment> \<open>bytes per frame of the configured \<open>alsa_handle\<close>\<close>
  alsa_rate :: int
  alsa_buffer :: "byte list"
  alsa_buffer_length :: int
  alsa_buffer_data_start :: int
  alsa_buffer_data_length :: int
  alsa_buffer_read_length :: int
  alsa_time :: int                       \<comment> \<open>microseconds\<close>
  alsa_paused :: bool
  alsa_paused_time :: int
  pump_quit :: bool
  alsa_config_delay_workaround :: bool
  pump_thread :: pump_pc
  pcm_played :: "byte list"              \<comment> \<open>the device: every byte \<open>snd_pcm_writei\<close> took so far\<close>

subsection \<open>The ALSA library calls the code relies on\<close>

text \<open>
  \<open>snd_pcm_bytes_to_frames\<close> and \<open>snd_pcm_frames_to_bytes\<close> convert with the frame size of
  the configured handle.  \<open>snd_pcm_writei\<close> answers with a negative error code or with
  the number of frames it took, which is at most the number it was offered: the
  argument \<open>reply\<close> is the error code, or the number of frames the device has room for.
\<close>

definition snd_pcm_bytes_to_frames :: "alsa \<Rightarrow> int \<Rightarrow> int" where
  "snd_pcm_bytes_to_frames st bytes = cdiv bytes (frame_bytes st)"

definition snd_pcm_frames_to_bytes :: "alsa \<Rightarrow> int \<Rightarrow> int" where
  "snd_pcm_frames_to_bytes st frames = frames * frame_bytes st"

definition snd_pcm_writei :: "int \<Rightarrow> int \<Rightarrow> int" where
  "snd_pcm_writei reply frames = (if reply < 0 then reply else min reply frames)"

text \<open>
  \<open>memcpy (dst + pos, src, length src)\<close> on a buffer held as a list.
\<close>

definition memcpy :: "byte list \<Rightarrow> nat \<Rightarrow> byte list \<Rightarrow> byte list" where
  "memcpy dst pos src = take pos dst @ src @ drop (pos + length src) dst"

subsection \<open>Checked device calls\<close>

text \<open>
  Modelled from the spec: the macros \<open>CHECK\<close> and \<open>CHECK_NOISY\<close> of alsa.h, which is
  not among the sources, and the configuration variables \<open>alsa_config_...\<close> and
  \<open>aud_cfg->output_buffer_size\<close>, which are defined elsewhere.  A checked call runs
  the device call and, when its result is negative, reports it and jumps to the label
  \<open>FAILED\<close> of the function around it (the specification's cleanup-on-failure control
  flow: the failure is logged and the function goes on from its exit path); otherwise
  the function goes on after the call.  The configuration variables are arguments or
  fields of the state.  Below, \<open>call\<close> is the result code of a call together with the
  state it leaves, and \<open>continue\<close> the code between the call and the label.
\<close>

definition CHECK :: "int \<times> 'a \<Rightarrow> ('a \<Rightarrow> 'a) \<Rightarrow> 'a" where
  "CHECK call continue = (if fst call < 0 then snd call else continue (snd call))"

subsection \<open>The pump thread\<close>

text \<open>The chunk length computed at the head of the loop body of \<open>pump\<close>.\<close>

definition pump_length :: "alsa \<Rightarrow> int" where
  "pump_length st =
     (let length0 = snd_pcm_frames_to_bytes st
            (snd_pcm_bytes_to_frames st (cdiv (alsa_buffer_length st) 4));
          length1 = min length0 (alsa_buffer_data_length st);
          length2 = min length1 (alsa_buffer_length st - alsa_buffer_data_start st)
      in if alsa_config_delay_workaround st
         then min length2 (snd_pcm_frames_to_bytes st (cdiv (alsa_rate st) 100))
         else length2)"

text \<open>
  From the loop test to the next point where the thread gives up the mutex: it returns
  when \<open>pump_quit\<close> is set, waits when paused or when there is nothing to send, and
  otherwise marks the chunk as being read and enters \<open>snd_pcm_writei\<close>.
\<close>

definition pump_top :: "alsa \<Rightarrow> alsa" where
  "pump_top st =
     (if pump_quit st then st\<lparr>pump_thread := Returned\<rparr>
      else if alsa_paused st then st
      else (let len = pump_length st
            in if len = 0 then st
               else st\<lparr>alsa_buffer_read_length := len, pump_thread := InWritei len\<rparr>))"

text \<open>
  The rest of the loop body, from the return of \<open>snd_pcm_writei\<close> on.  \<open>reply\<close> is the
  device's answer to the write and \<open>recovered\<close> the result of \<open>snd_pcm_recover\<close>, should
  it be called.  \<open>CHECK\<close> (of alsa.h) jumps to \<open>FAILED\<close> when the call's result is
  negative; the label sits right after the call here, so \<open>length = 0\<close> is reached either
  way.
\<close>

definition pump_bottom :: "int \<Rightarrow> int \<Rightarrow> int \<Rightarrow> alsa \<Rightarrow> fault + alsa" where
  "pump_bottom len reply recovered st =
     (let ret = snd_pcm_writei reply (snd_pcm_bytes_to_frames st len);
          length1 =
            (if ret < 0
             then (if \<not> pump_quit st \<and> \<not> alsa_paused st
                   then (if recovered < 0 then 0 else 0)
                   else 0)
             else ret);
          length2 = snd_pcm_frames_to_bytes st length1
      in if alsa_buffer_length st = 0 then Inl SIGFPE
         else Inr (st\<lparr>
           pcm_played := pcm_played st @
             take (nat length2) (drop (nat (alsa_buffer_data_start st)) (alsa_buffer st)),
           alsa_buffer_data_start :=
             crem (alsa_buffer_data_start st + length2) (alsa_buffer_length st),
           alsa_buffer_data_length := alsa_buffer_data_length st - length2,
           alsa_buffer_read_length := 0\<rparr>))"

text \<open>
  What the pump thread does when it is scheduled: \<open>Wake\<close> lets it run from the loop
  test (after \<open>pthread_create\<close> or a broadcast), \<open>WriteiReturns reply recovered\<close> ends a
  pending \<open>snd_pcm_writei\<close>; the thread then goes round the loop with the mutex still
  held.  An event the thread is not waiting for changes nothing.
\<close>

datatype feeder_event = Wake | WriteiReturns int int

fun pump :: "feeder_event \<Rightarrow> alsa \<Rightarrow> fault + alsa" where
  "pump Wake st =
     (case pump_thread st of
        AtLoopTest \<Rightarrow> Inr (pump_top st)
      | _ \<Rightarrow> Inr st)"
| "pump (WriteiReturns reply recovered) st =
     (case pump_thread st of
        InWritei len \<Rightarrow>
          (case pump_bottom len reply recovered st of
             Inl f \<Rightarrow> Inl f
           | Inr st' \<Rightarrow> Inr (pump_top (st'\<lparr>pump_thread := AtLoopTest\<rparr>)))
      | _ \<Rightarrow> Inr st)"

fun pump_run :: "feeder_event list \<Rightarrow> alsa \<Rightarrow> fault + alsa" where
  "pump_run [] st = Inr st"
| "pump_run (ev # evs) st =
     (case pump ev st of Inl f \<Rightarrow> Inl f | Inr st' \<Rightarrow> pump_run evs st')"

text \<open>
  A caller suspended in \<open>pthread_cond_wait\<close> sees the pump thread run some events
  before it is woken; the list of these, one entry for each wait, is the \<open>env\<close> argument
  of the blocking functions.  When the list is used up the caller is never woken.
\<close>

type_synonym env = "feeder_event list list"

subsection \<open>Playback control and the clock\<close>

text \<open>
  \<open>start_playback\<close>: both \<open>CHECK\<close>ed device calls continue at \<open>FAILED\<close>, whatever they
  return.
\<close>

definition start_playback :: "alsa \<Rightarrow> alsa" where
  "start_playback st = st\<lparr>alsa_paused := False\<rparr>"

text \<open>
  \<open>real_output_time\<close>: \<open>status\<close> is what \<open>snd_pcm_status\<close> gives, \<open>None\<close> when the call
  fails (then \<open>CHECK\<close> jumps to \<open>FAILED\<close> with \<open>time\<close> still 0) and otherwise the delay in
  frames of the status.  The difference of the two \<open>int\<close> lengths is an \<open>int\<close>; the sum
  with the delay is a \<open>long\<close>; the product, the quotient by the rate and the difference
  from \<open>alsa_time\<close> are \<open>int64_t\<close>; the result is stored in an \<open>int\<close>.
\<close>

definition real_output_time :: "int option \<Rightarrow> alsa \<Rightarrow> fault + int" where
  "real_output_time status st =
     (case status of
        None \<Rightarrow> Inr 0
      | Some delay \<Rightarrow>
          (case div64
                  (wrap64 (wrap64 (snd_pcm_bytes_to_frames st
                             (int_of_int64 (alsa_buffer_data_length st -
                                            alsa_buffer_read_length st)) + delay)
                           * 1000000))
                  (alsa_rate st) of
             Inl f \<Rightarrow> Inl f
           | Inr behind \<Rightarrow>
               Inr (int_of_int64 (cdiv (wrap64 (alsa_time st - behind)) 1000))))"

definition alsa_set_written_time :: "int \<Rightarrow> alsa \<Rightarrow> alsa" where
  "alsa_set_written_time time st = st\<lparr>alsa_time := 1000 * time\<rparr>"

definition alsa_written_time :: "alsa \<Rightarrow> int" where
  "alsa_written_time st = int_of_int64 (cdiv (alsa_time st) 1000)"

definition alsa_output_time :: "int option \<Rightarrow> alsa \<Rightarrow> fault + int" where
  "alsa_output_time status st =
     (if alsa_paused st then Inr (alsa_paused_time st) else real_output_time status st)"

text \<open>
  \<open>alsa_pause\<close>: the result of the \<open>CHECK\<close>ed \<open>snd_pcm_pause\<close> changes nothing, the label
  follows.
\<close>

definition alsa_pause :: "bool \<Rightarrow> int option \<Rightarrow> alsa \<Rightarrow> fault + alsa" where
  "alsa_pause pause status st =
     (if pause
      then (case real_output_time status (st\<lparr>alsa_paused := True\<rparr>) of
              Inl f \<Rightarrow> Inl f
            | Inr time \<Rightarrow> Inr (st\<lparr>alsa_paused := True, alsa_paused_time := time\<rparr>))
      else Inr st)"

text \<open>
  \<open>alsa_flush\<close>: the loop \<open>while (alsa_buffer_read_length) pthread_cond_wait (...)\<close>
  is \<open>flush_wait\<close>.
\<close>

fun flush_wait :: "env \<Rightarrow> alsa \<Rightarrow> fault + alsa" where
  "flush_wait [] st =
     (if alsa_buffer_read_length st \<noteq> 0 then Inl Blocked else Inr st)"
| "flush_wait (evs # env) st =
     (if alsa_buffer_read_length st \<noteq> 0
      then (case pump_run evs st of Inl f \<Rightarrow> Inl f | Inr st' \<Rightarrow> flush_wait env st')
      else Inr st)"

definition alsa_flush :: "int \<Rightarrow> env \<Rightarrow> alsa \<Rightarrow> fault + alsa" where
  "alsa_flush time env st =
     (case flush_wait env
             (st\<lparr>alsa_time := time * 1000, alsa_paused := True, alsa_paused_time := time\<rparr>) of
        Inl f \<Rightarrow> Inl f
      | Inr st' \<Rightarrow> Inr (st'\<lparr>alsa_buffer_data_start := 0, alsa_buffer_data_length := 0\<rparr>))"

subsection \<open>Writing and draining\<close>

text \<open>
  One pass through the body of the loop of \<open>alsa_write_audio\<close>, down to the test
  \<open>if (! length) break\<close>: the result is the data still to be written and the new
  globals.
\<close>

definition write_iteration :: "byte list \<Rightarrow> alsa \<Rightarrow> fault + (byte list \<times> alsa)" where
  "write_iteration data st =
     (if alsa_buffer_length st = 0 \<or> alsa_rate st = 0 then Inl SIGFPE
      else
        (let writable = min (alsa_buffer_length st - alsa_buffer_data_length st)
                            (int (length data));
             start = crem (alsa_buffer_data_start st + alsa_buffer_data_length st)
                          (alsa_buffer_length st);
             buffer =
               (if writable > alsa_buffer_length st - start
                then (let part = alsa_buffer_length st - start
                      in memcpy (memcpy (alsa_buffer st) (nat start) (take (nat part) data))
                           0 (take (nat (writable - part)) (drop (nat part) data)))
                else memcpy (alsa_buffer st) (nat start) (take (nat writable) data))
         in Inr (drop (nat writable) data,
                 st\<lparr>alsa_buffer := buffer,
                    alsa_buffer_data_length := alsa_buffer_data_length st + writable,
                    alsa_time := alsa_time st +
                      cdiv (snd_pcm_bytes_to_frames st writable * 1000000) (alsa_rate st)\<rparr>)))"

text \<open>Before the wait: \<open>if (alsa_paused) start_playback ()\<close>.\<close>

definition buffering_completed :: "alsa \<Rightarrow> alsa" where
  "buffering_completed st = (if alsa_paused st then start_playback st else st)"

fun alsa_write_audio :: "byte list \<Rightarrow> env \<Rightarrow> alsa \<Rightarrow> fault + alsa" where
  "alsa_write_audio data [] st =
     (case write_iteration data st of
        Inl f \<Rightarrow> Inl f
      | Inr (rest, st1) \<Rightarrow> if rest = [] then Inr st1 else Inl Blocked)"
| "alsa_write_audio data (evs # env) st =
     (case write_iteration data st of
        Inl f \<Rightarrow> Inl f
      | Inr (rest, st1) \<Rightarrow>
          if rest = [] then Inr st1
          else (case pump_run evs (buffering_completed st1) of
                  Inl f \<Rightarrow> Inl f
                | Inr st2 \<Rightarrow> alsa_write_audio rest env st2))"

text \<open>
  \<open>alsa_drain\<close>: the final \<open>snd_pcm_drain\<close> touches no global.
\<close>

fun alsa_drain :: "env \<Rightarrow> alsa \<Rightarrow> fault + alsa" where
  "alsa_drain [] st =
     (if alsa_buffer_data_length st > 0 then Inl Blocked else Inr st)"
| "alsa_drain (evs # env) st =
     (if alsa_buffer_data_length st > 0
      then (case pump_run evs (buffering_completed st) of
              Inl f \<Rightarrow> Inl f
            | Inr st' \<Rightarrow> alsa_drain env st')
      else Inr st)"


subsection \<open>Opening the device\<close>

text \<open>
  What the device answers while \<open>alsa_open_audio\<close> runs: the result of each
  \<open>CHECK_NOISY\<close>ed call in the order of the source, the buffer size in frames that
  \<open>snd_pcm_get_params\<close> reports, and the frame size of the configuration.
\<close>

record open_replies =
  r_open :: int
  r_hw_params_any :: int
  r_set_access :: int
  r_set_format :: int
  r_set_channels :: int
  r_set_rate :: int
  r_set_buffer_time_max :: int
  r_hw_params :: int
  r_get_params :: int
  hw_frames :: int
  hw_frame_bytes :: int

text \<open>
  \<open>alsa_open_audio\<close>, with \<open>output_buffer_size\<close> for \<open>aud_cfg->output_buffer_size\<close>.
  \<open>CHECK_NOISY\<close> jumps to \<open>FAILED\<close> on a negative result, where the handle is closed
  and 0 returned.  \<open>alsa_format\<close> and \<open>alsa_channels\<close> are stored and never read in this
  file, and \<open>alsa_soft_init\<close> touches the mixer's globals only (see below); they are left
  out here.  The bytes of the fresh \<open>malloc\<close>ed buffer are indeterminate and never read
  before they are written; the model fills them with zeros.  The pump thread created at
  the end finds \<open>alsa_paused\<close> set and waits.  \<open>frames\<close> is an unsigned long cast to
  \<open>int64_t\<close>; \<open>hard_buffer\<close> and \<open>soft_buffer\<close> are \<open>int\<close>s and so is the difference
  taken for \<open>soft_buffer\<close>; the two products are \<open>int64_t\<close>; the byte count is stored in
  the \<open>int\<close> \<open>alsa_buffer_length\<close>.
\<close>

definition alsa_open_audio :: "int \<Rightarrow> int \<Rightarrow> open_replies \<Rightarrow> alsa \<Rightarrow> fault + (int \<times> alsa)" where
  "alsa_open_audio rate output_buffer_size dev st =
     (if r_open dev < 0 then Inr (0, st\<lparr>alsa_handle := False\<rparr>)
      else if r_hw_params_any dev < 0 \<or> r_set_access dev < 0 \<or> r_set_format dev < 0 \<or>
              r_set_channels dev < 0 \<or> r_set_rate dev < 0 \<or>
              r_set_buffer_time_max dev < 0 \<or> r_hw_params dev < 0
      then Inr (0, st\<lparr>alsa_handle := False\<rparr>)
      else if r_get_params dev < 0
      then Inr (0, st\<lparr>alsa_handle := False, frame_bytes := hw_frame_bytes dev,
                       alsa_rate := rate\<rparr>)
      else
        (case div64 (wrap64 (wrap64 (hw_frames dev) * 1000)) rate of
           Inl f \<Rightarrow> Inl f
         | Inr hard \<Rightarrow>
        (let hard_buffer = int_of_int64 hard;
             soft_buffer = max (cdiv output_buffer_size 2)
                               (int_of_int64 (output_buffer_size - hard_buffer));
             buffer_length = int_of_int64
               (cdiv (wrap64 (soft_buffer * rate)) 1000 * hw_frame_bytes dev)
         in Inr (1, st\<lparr>alsa_handle := True, frame_bytes := hw_frame_bytes dev,
                        alsa_rate := rate,
                        alsa_buffer := replicate (nat buffer_length) 0,
                        alsa_buffer_length := buffer_length,
                        alsa_buffer_data_start := 0,
                        alsa_buffer_data_length := 0,
                        alsa_buffer_read_length := 0,
                        alsa_time := 0,
                        alsa_paused := True,
                        alsa_paused_time := 0,
                        pump_quit := False,
                        pump_thread := AtLoopTest\<rparr>))))"

subsection \<open>The mixer\<close>

text \<open>
  The simple mixer element of ALSA as the code uses it: whether it is mono, whether it
  has a playback switch and whether that switch is joined, and its volume and switch
  per channel.  \<open>SND_MIXER_SCHN_MONO\<close> is ALSA's name for the front left channel.  A
  call answers with a result code, negative when it fails; a setter that succeeds stores
  the value and a getter reads it back (the range is 0 to 100 since \<open>alsa_open_mixer\<close>).
\<close>

datatype channel = SND_MIXER_SCHN_FRONT_LEFT | SND_MIXER_SCHN_FRONT_RIGHT

definition SND_MIXER_SCHN_MONO :: channel where
  "SND_MIXER_SCHN_MONO = SND_MIXER_SCHN_FRONT_LEFT"

record mixer_elem =
  is_playback_mono :: bool
  has_playback_switch :: bool
  has_playback_switch_joined :: bool
  playback_volume :: "channel \<Rightarrow> int"
  playback_switch :: "channel \<Rightarrow> bool"

definition snd_mixer_selem_set_playback_volume ::
    "int \<Rightarrow> channel \<Rightarrow> int \<Rightarrow> mixer_elem \<Rightarrow> int \<times> mixer_elem" where
  "snd_mixer_selem_set_playback_volume reply ch v el =
     (if reply < 0 then (reply, el)
      else (0, el\<lparr>playback_volume := (playback_volume el)(ch := v)\<rparr>))"

definition snd_mixer_selem_set_playback_switch ::
    "int \<Rightarrow> channel \<Rightarrow> bool \<Rightarrow> mixer_elem \<Rightarrow> int \<times> mixer_elem" where
  "snd_mixer_selem_set_playback_switch reply ch v el =
     (if reply < 0 then (reply, el)
      else (0, el\<lparr>playback_switch :=
                  (if has_playback_switch_joined el then (\<lambda>_. v)
                   else (playback_switch el)(ch := v))\<rparr>))"

definition snd_mixer_selem_get_playback_volume ::
    "int \<Rightarrow> channel \<Rightarrow> mixer_elem \<Rightarrow> int \<times> int" where
  "snd_mixer_selem_get_playback_volume reply ch el =
     (if reply < 0 then (reply, 0) else (0, playback_volume el ch))"

text \<open>
  The mixer's globals: \<open>alsa_mixer\<close> is \<open>None\<close> for \<open>NULL\<close> and otherwise holds the
  element \<open>alsa_mixer_element\<close>.
\<close>

record mixer =
  initted :: bool
  alsa_mixer :: "mixer_elem option"

text \<open>
  The result codes of the device calls of one \<open>alsa_get_volume\<close> or
  \<open>alsa_set_volume\<close>, by call.
\<close>

record mixer_replies =
  r_handle_events :: int
  r_volume_left :: int
  r_volume_right :: int
  r_switch_left :: int
  r_switch_right :: int

text \<open>
  \<open>alsa_soft_init\<close>: \<open>found\<close> is what \<open>alsa_open_mixer\<close> leaves in \<open>alsa_mixer\<close>,
  \<open>None\<close> when no element is configured or a step of opening it fails.  In
  \<open>alsa_set_volume\<close> the last call, \<open>snd_mixer_handle_events\<close>, has the label \<open>FAILED\<close>
  right behind it and stores nothing in the element.
\<close>

definition alsa_soft_init :: "mixer_elem option \<Rightarrow> mixer \<Rightarrow> mixer" where
  "alsa_soft_init found ms =
     (if \<not> initted ms then ms\<lparr>alsa_mixer := found, initted := True\<rparr> else ms)"

definition alsa_set_volume :: "int \<Rightarrow> int \<Rightarrow> mixer_elem option \<Rightarrow> mixer_replies \<Rightarrow> mixer \<Rightarrow> mixer" where
  "alsa_set_volume left right found rs ms0 =
     (let ms = alsa_soft_init found ms0
      in case alsa_mixer ms of
           None \<Rightarrow> ms
         | Some el \<Rightarrow> ms\<lparr>alsa_mixer := Some
             (if is_playback_mono el
              then
                CHECK (snd_mixer_selem_set_playback_volume (r_volume_left rs)
                         SND_MIXER_SCHN_MONO (max left right) el)
                  (\<lambda>el. if has_playback_switch el
                         then CHECK (snd_mixer_selem_set_playback_switch (r_switch_left rs)
                                       SND_MIXER_SCHN_MONO (max left right \<noteq> 0) el) id
                         else el)
              else
                CHECK (snd_mixer_selem_set_playback_volume (r_volume_left rs)
                         SND_MIXER_SCHN_FRONT_LEFT left el)
                  (\<lambda>el. CHECK (snd_mixer_selem_set_playback_volume (r_volume_right rs)
                                  SND_MIXER_SCHN_FRONT_RIGHT right el)
                  (\<lambda>el. if has_playback_switch el
                         then (if has_playback_switch_joined el
                               then CHECK (snd_mixer_selem_set_playback_switch
                                             (r_switch_left rs) SND_MIXER_SCHN_FRONT_LEFT
                                             (max left right \<noteq> 0) el) id
                               else CHECK (snd_mixer_selem_set_playback_switch
                                             (r_switch_left rs) SND_MIXER_SCHN_FRONT_LEFT
                                             (left \<noteq> 0) el)
                                      (\<lambda>el. CHECK (snd_mixer_selem_set_playback_switch
                                                     (r_switch_right rs)
                                                     SND_MIXER_SCHN_FRONT_RIGHT
                                                     (right \<noteq> 0) el) id))
                         else el)))\<rparr>)"

text \<open>
  \<open>alsa_get_volume\<close>: \<open>left_l\<close> and \<open>right_l\<close> start at 0 and keep what they hold when a
  call fails; the \<open>glong\<close> values are narrowed to \<open>int\<close> on the way out.
\<close>

definition alsa_get_volume :: "mixer_elem option \<Rightarrow> mixer_replies \<Rightarrow> mixer \<Rightarrow> (int \<times> int) \<times> mixer" where
  "alsa_get_volume found rs ms0 =
     (let ms = alsa_soft_init found ms0;
          (left_l, right_l) =
            (case alsa_mixer ms of
               None \<Rightarrow> (0, 0)
             | Some el \<Rightarrow>
                 if r_handle_events rs < 0 then (0, 0)
                 else if is_playback_mono el
                 then (let (r, v) = snd_mixer_selem_get_playback_volume (r_volume_left rs)
                                      SND_MIXER_SCHN_MONO el
                       in if r < 0 then (0, 0) else (v, v))
                 else (let (r, v) = snd_mixer_selem_get_playback_volume (r_volume_left rs)
                                      SND_MIXER_SCHN_FRONT_LEFT el
                       in if r < 0 then (0, 0)
                          else (let (r', v') = snd_mixer_selem_get_playback_volume
                                                 (r_volume_right rs)
                                                 SND_MIXER_SCHN_FRONT_RIGHT el
                                in if r' < 0 then (v, 0) else (v, v'))))
      in ((int_of_int64 left_l, int_of_int64 right_l), ms))"

subsection \<open>Sessions as sequences of calls\<close>

text \<open>
  The calls of the playback engine that change the globals, and the pump thread
  running on its own between two of them.
\<close>

datatype operation =
    Write "byte list" env
  | Drain env
  | Flush int env
  | SetWrittenTime int
  | Pause bool "int option"
  | Feeder "feeder_event list"

fun exec :: "operation \<Rightarrow> alsa \<Rightarrow> fault + alsa" where
  "exec (Write data env) st = alsa_write_audio data env st"
| "exec (Drain env) st = alsa_drain env st"
| "exec (Flush time env) st = alsa_flush time env st"
| "exec (SetWrittenTime time) st = Inr (alsa_set_written_time time st)"
| "exec (Pause pause status) st = alsa_pause pause status st"
| "exec (Feeder evs) st = pump_run evs st"

fun run :: "operation list \<Rightarrow> alsa \<Rightarrow> fault + alsa" where
  "run [] st = Inr st"
| "run (op # ops) st = (case exec op st of Inl f \<Rightarrow> Inl f | Inr st' \<Rightarrow> run ops st')"

text \<open>
  What a call does to the frozen output time.  A write has to wait when its first pass
  through the loop leaves data over, a drain when data are queued: these are the calls
  that reach \<open>start_playback\<close>.  \<open>alsa_pause (1)\<close> and \<open>alsa_flush\<close> store a new snapshot.
  A sequence of calls is \<open>undisturbed\<close> from a state when none of its calls, in the state
  it is made in, has to wait or stores a snapshot: any number of pump steps,
  \<open>alsa_set_written_time\<close>, \<open>alsa_pause (0)\<close>, writes that fit and drains of an empty
  buffer.
\<close>

fun has_to_wait :: "operation \<Rightarrow> alsa \<Rightarrow> bool" where
  "has_to_wait (Write data env) st =
     (case write_iteration data st of Inl f \<Rightarrow> False | Inr (rest, st1) \<Rightarrow> rest \<noteq> [])"
| "has_to_wait (Drain env) st = (0 < alsa_buffer_data_length st)"
| "has_to_wait _ st = False"

fun takes_snapshot :: "operation \<Rightarrow> bool" where
  "takes_snapshot (Pause pause status) = pause"
| "takes_snapshot (Flush time env) = True"
| "takes_snapshot _ = False"

fun undisturbed :: "operation list \<Rightarrow> alsa \<Rightarrow> bool" where
  "undisturbed [] st = True"
| "undisturbed (op # ops) st =
     (\<not> has_to_wait op st \<and> \<not> takes_snapshot op \<and>
      (case exec op st of Inl f \<Rightarrow> True | Inr st' \<Rightarrow> undisturbed ops st'))"

fun resets_written_time :: "operation \<Rightarrow> bool" where
  "resets_written_time (Flush time env) = True"
| "resets_written_time (SetWrittenTime time) = True"
| "resets_written_time _ = False"

fun is_flush :: "operation \<Rightarrow> bool" where
  "is_flush (Flush time env) = True"
| "is_flush _ = False"


subsection \<open>The formulas of the specification\<close>

text \<open>
  The output time while not paused, in milliseconds: the written time less the time
  that the frames still queued (without those in flight) and the frames the hardware
  reports as delayed take at the sample rate.
\<close>

definition reconstructed_output_time :: "int \<Rightarrow> int \<Rightarrow> int \<Rightarrow> int \<Rightarrow> int" where
  "reconstructed_output_time written_time queued_frames delay_frames sample_rate =
     cdiv (written_time - cdiv ((queued_frames + delay_frames) * 1000000) sample_rate) 1000"

text \<open>
  The values on the way to the output time fit the C types that hold them: the
  difference of the lengths an \<open>int\<close>, the sum of the frames, its product with 1,000,000
  and the difference from the written time an \<open>int64_t\<close>, the result an \<open>int\<close>.
\<close>

definition output_time_fits :: "alsa \<Rightarrow> int \<Rightarrow> bool" where
  "output_time_fits st delay \<longleftrightarrow>
     is_int (alsa_buffer_data_length st - alsa_buffer_read_length st) \<and>
     is_int64 (snd_pcm_bytes_to_frames st
                 (alsa_buffer_data_length st - alsa_buffer_read_length st) + delay) \<and>
     is_int64 ((snd_pcm_bytes_to_frames st
                  (alsa_buffer_data_length st - alsa_buffer_read_length st) + delay)
               * 1000000) \<and>
     is_int64 (alsa_time st -
               cdiv ((snd_pcm_bytes_to_frames st
                        (alsa_buffer_data_length st - alsa_buffer_read_length st) + delay)
                     * 1000000) (alsa_rate st)) \<and>
     is_int (reconstructed_output_time (alsa_time st)
               (snd_pcm_bytes_to_frames st
                  (alsa_buffer_data_length st - alsa_buffer_read_length st))
               delay (alsa_rate st))"

text \<open>The capacity of the ring buffer chosen at open time.\<close>

definition hardware_buffer_ms :: "int \<Rightarrow> int \<Rightarrow> int" where
  "hardware_buffer_ms frames rate = cdiv (frames * 1000) rate"

definition software_buffer_ms :: "int \<Rightarrow> int \<Rightarrow> int" where
  "software_buffer_ms target_buffer_ms hw_buffer_ms =
     max (cdiv target_buffer_ms 2) (target_buffer_ms - hw_buffer_ms)"

definition capacity_bytes :: "int \<Rightarrow> int \<Rightarrow> int \<Rightarrow> int" where
  "capacity_bytes soft_buffer_ms rate bytes_per_frame =
     cdiv (soft_buffer_ms * rate) 1000 * bytes_per_frame"

text \<open>
  The values on the way to the capacity fit the C types that hold them: the frames and
  their product with 1000 an \<open>int64_t\<close>, the hardware's milliseconds and their
  difference from the target an \<open>int\<close>, the product of the software's milliseconds and
  the rate an \<open>int64_t\<close>, the capacity an \<open>int\<close>.
\<close>

definition capacity_fits :: "int \<Rightarrow> int \<Rightarrow> int \<Rightarrow> int \<Rightarrow> bool" where
  "capacity_fits frames rate target_buffer_ms bytes_per_frame \<longleftrightarrow>
     is_int64 frames \<and> is_int64 (frames * 1000) \<and>
     is_int (hardware_buffer_ms frames rate) \<and>
     is_int (target_buffer_ms - hardware_buffer_ms frames rate) \<and>
     is_int64 (software_buffer_ms target_buffer_ms (hardware_buffer_ms frames rate) * rate) \<and>
     is_int (capacity_bytes
               (software_buffer_ms target_buffer_ms (hardware_buffer_ms frames rate))
               rate bytes_per_frame)"

subsection \<open>State components and invariants\<close>

definition clock :: "alsa \<Rightarrow> int \<times> bool \<times> int" where
  "clock st = (alsa_time st, alsa_paused st, alsa_paused_time st)"

definition pause_state :: "alsa \<Rightarrow> bool \<times> int" where
  "pause_state st = (alsa_paused st, alsa_paused_time st)"

text \<open>
  An open session has a frame size, a rate and a capacity above zero, and never more
  bytes queued than the capacity.
\<close>

definition capacity_ok :: "alsa \<Rightarrow> bool" where
  "capacity_ok st \<longleftrightarrow>
     0 < frame_bytes st \<and> 0 < alsa_rate st \<and> 0 < alsa_buffer_length st \<and>
     alsa_buffer_data_length st \<le> alsa_buffer_length st"

text \<open>
  The ring buffer read as the code reads it: \<open>n\<close> bytes from offset \<open>start\<close>, going
  round at the end.  \<open>ring_store\<close> is the copy of \<open>alsa_write_audio\<close> (one \<open>memcpy\<close>,
  or two when the data go round the end), as a function of the buffer alone.
\<close>

definition ring :: "byte list \<Rightarrow> nat \<Rightarrow> nat \<Rightarrow> byte list" where
  "ring buf start n = map (\<lambda>i. buf ! ((start + i) mod length buf)) [0..<n]"


text \<open>
  The bytes queued in a session, and the whole stream: what the device has taken,
  followed by what is queued.  The local \<open>length\<close> of a pump thread inside
  \<open>snd_pcm_writei\<close> is \<open>in_flight\<close>.  In an open session the sizes are positive, the
  buffer has its capacity, start and occupancy are within it, and the chunk in flight
  lies inside the queued data and before the end of the buffer; \<open>continues\<close> relates
  two states of an open session with the same stream.
\<close>

fun in_flight :: "pump_pc \<Rightarrow> int" where
  "in_flight (InWritei len) = len"
| "in_flight _ = 0"

definition queued :: "alsa \<Rightarrow> byte list" where
  "queued st =
     ring (alsa_buffer st) (nat (alsa_buffer_data_start st)) (nat (alsa_buffer_data_length st))"


definition session_ok :: "alsa \<Rightarrow> bool" where
  "session_ok st \<longleftrightarrow>
     0 < frame_bytes st \<and> 0 < alsa_rate st \<and> 0 < alsa_buffer_length st \<and>
     length (alsa_buffer st) = nat (alsa_buffer_length st) \<and>
     0 \<le> alsa_buffer_data_start st \<and> alsa_buffer_data_start st < alsa_buffer_length st \<and>
     0 \<le> alsa_buffer_data_length st \<and> alsa_buffer_data_length st \<le> alsa_buffer_length st \<and>
     0 \<le> in_flight (pump_thread st) \<and>
     in_flight (pump_thread st) \<le> alsa_buffer_data_length st \<and>
     alsa_buffer_data_start st + in_flight (pump_thread st) \<le> alsa_buffer_length st"


text \<open>One state follows another of an open session, with the written time not less.\<close>

definition advanced :: "alsa \<Rightarrow> alsa \<Rightarrow> bool" where
  "advanced st st' \<longleftrightarrow> capacity_ok st' \<and> alsa_time st \<le> alsa_time st'"

subsection \<open>Sample states\<close>

definition example_session :: alsa where
  "example_session =
     \<lparr>alsa_handle = True, frame_bytes = 4, alsa_rate = 44100,
      alsa_buffer = [1, 2, 3, 4, 5, 6, 7, 8, 9, 10, 11, 12, 13, 14, 15, 16],
      alsa_buffer_length = 16, alsa_buffer_data_start = 8, alsa_buffer_data_length = 8,
      alsa_buffer_read_length = 4, alsa_time = 5000000, alsa_paused = False,
      alsa_paused_time = 0, pump_quit = False, alsa_config_delay_workaround = False,
      pump_thread = InWritei 4, pcm_played = []\<rparr>"

definition example_flushed :: alsa where
  "example_flushed =
     example_session\<lparr>alsa_buffer_data_start := 0, alsa_buffer_data_length := 0,
       alsa_buffer_read_length := 0, alsa_time := 1234000, alsa_paused := True,
       alsa_paused_time := 1234, pump_thread := AtLoopTest, pcm_played := [9, 10, 11, 12]\<rparr>"


definition example_paused :: alsa where
  "example_paused = example_session\<lparr>alsa_paused := True, alsa_paused_time := 3999\<rparr>"

definition example_still_paused :: alsa where
  "example_still_paused =
     example_paused\<lparr>alsa_buffer_data_start := 12, alsa_buffer_read_length := 0,
       alsa_time := 5000022, pump_thread := AtLoopTest, pcm_played := [9, 10, 11, 12]\<rparr>"

definition example_restarted :: alsa where
  "example_restarted =
     example_still_paused\<lparr>
       alsa_buffer := [1, 2, 3, 4, 21, 22, 23, 24, 25, 26, 27, 28, 29, 30, 31, 32],
       alsa_buffer_data_start := 0, alsa_buffer_data_length := 16,
       alsa_buffer_read_length := 4, alsa_time := 5000089, alsa_paused := False,
       pump_thread := InWritei 4, pcm_played := [9, 10, 11, 12, 13, 14, 15, 16]\<rparr>"

definition example_buffering :: alsa where
  "example_buffering = example_flushed\<lparr>alsa_buffer_data_length := 4, alsa_time := 7022\<rparr>"

definition example_replies :: open_replies where
  "example_replies =
     \<lparr>r_open = 0, r_hw_params_any = 0, r_set_access = 0, r_set_format = 0,
      r_set_channels = 0, r_set_rate = 0, r_set_buffer_time_max = 0, r_hw_params = 0,
      r_get_params = 0, hw_frames = 40, hw_frame_bytes = 2\<rparr>"

definition example_opened :: alsa where
  "example_opened =
     \<lparr>alsa_handle = True, frame_bytes = 2, alsa_rate = 8000,
      alsa_buffer = replicate 80 0,
      alsa_buffer_length = 80, alsa_buffer_data_start = 0, alsa_buffer_data_length = 0,
      alsa_buffer_read_length = 0, alsa_time = 0, alsa_paused = True,
      alsa_paused_time = 0, pump_quit = False, alsa_config_delay_workaround = False,
      pump_thread = AtLoopTest, pcm_played = []\<rparr>"

definition mono_element :: mixer_elem where
  "mono_element =
     \<lparr>is_playback_mono = True, has_playback_switch = True,
      has_playback_switch_joined = False,
      playback_volume = (\<lambda>_. 25), playback_switch = (\<lambda>_. False)\<rparr>"

definition calls_succeed :: mixer_replies where
  "calls_succeed =
     \<lparr>r_handle_events = 0, r_volume_left = 0, r_volume_right = 0,
      r_switch_left = 0, r_switch_right = 0\<rparr>"

section \<open>Properties\<close>

subsection \<open>Helper facts\<close>




subsection \<open>The clock is the callers' alone\<close>

lemma pump_top_clock: "clock (pump_top st) = clock st"
  by (simp add: pump_top_def clock_def Let_def)

lemma pump_bottom_clock:
  "pump_bottom len reply recovered st = Inr st' \<Longrightarrow> clock st' = clock st"
  by (auto simp: pump_bottom_def clock_def Let_def split: if_splits)

lemma pump_clock:
  assumes r: "pump ev st = Inr st'"
  shows "clock st' = clock st"
proof (cases ev)
  case Wake
  with r show ?thesis
    by (cases "pump_thread st") (use pump_top_clock [of st] in auto)
next
  case (WriteiReturns reply recovered)
  show ?thesis
  proof (cases "pump_thread st")
    case (InWritei len)
    with r WriteiReturns obtain st1 where b: "pump_bottom len reply recovered st = Inr st1"
      and s: "st' = pump_top (st1\<lparr>pump_thread := AtLoopTest\<rparr>)"
      by (auto split: sum.splits)
    have "clock st' = clock (st1\<lparr>pump_thread := AtLoopTest\<rparr>)"
      unfolding s by (rule pump_top_clock)
    also have "\<dots> = clock st1" by (simp add: clock_def)
    also have "\<dots> = clock st" by (rule pump_bottom_clock [OF b])
    finally show ?thesis .
  qed (use r WriteiReturns in auto)
qed

lemma pump_run_clock: "pump_run evs st = Inr st' \<Longrightarrow> clock st' = clock st"
proof (induction evs arbitrary: st)
  case Nil
  then show ?case by simp
next
  case (Cons ev evs)
  then show ?case by (auto split: sum.splits dest: pump_clock)
qed

lemma clock_pause_state: "clock st' = clock st \<Longrightarrow> pause_state st' = pause_state st"
  by (simp add: clock_def pause_state_def)

lemma flush_wait_clock: "flush_wait env st = Inr st' \<Longrightarrow> clock st' = clock st"
proof (induction env arbitrary: st)
  case Nil
  then show ?case by (simp split: if_splits)
next
  case (Cons evs env)
  then show ?case by (auto split: sum.splits if_splits dest: pump_run_clock)
qed

lemma alsa_flush_result:
  assumes "alsa_flush t env st = Inr st'"
  shows "clock st' = (t * 1000, True, t)" and "alsa_buffer_data_length st' = 0"
    and "alsa_buffer_data_start st' = 0"
  using assms
  by (auto simp: alsa_flush_def clock_def split: sum.splits dest!: flush_wait_clock)

subsection \<open>Calls that leave the pause flag and the snapshot alone\<close>

lemma write_iteration_pause_state:
  "write_iteration data st = Inr (rest, st') \<Longrightarrow> pause_state st' = pause_state st"
  by (auto simp: write_iteration_def pause_state_def Let_def split: if_splits)

lemma quiet_exec_pause_state:
  assumes "\<not> has_to_wait op st" and "\<not> takes_snapshot op" and "exec op st = Inr st'"
  shows "pause_state st' = pause_state st"
proof (cases op)
  case (Write data env)
  with assms(3) obtain rest st1 where w: "write_iteration data st = Inr (rest, st1)"
    by (cases env) (auto split: sum.splits)
  with assms(1) Write have "rest = []" by simp
  with assms(3) Write w have "st' = st1" by (cases env) simp_all
  with w show ?thesis by (simp add: write_iteration_pause_state)
next
  case (Drain env)
  with assms(1) have "\<not> 0 < alsa_buffer_data_length st" by simp
  with assms(3) Drain show ?thesis by (cases env) simp_all
next
  case (Flush time env)
  with assms(2) show ?thesis by simp
next
  case (SetWrittenTime time)
  with assms(3) show ?thesis by (auto simp: alsa_set_written_time_def pause_state_def)
next
  case (Pause pause status)
  with assms(2,3) show ?thesis by (auto simp: alsa_pause_def)
next
  case (Feeder evs)
  with assms(3) show ?thesis by (auto dest: pump_run_clock clock_pause_state)
qed

lemma undisturbed_pause_state:
  "undisturbed ops st \<Longrightarrow> run ops st = Inr st' \<Longrightarrow> pause_state st' = pause_state st"
proof (induction ops arbitrary: st)
  case Nil
  then show ?case by simp
next
  case (Cons op ops)
  from Cons.prems(2) obtain st1 where e: "exec op st = Inr st1" and r: "run ops st1 = Inr st'"
    by (auto split: sum.splits)
  from Cons.prems(1) e have q: "\<not> has_to_wait op st" "\<not> takes_snapshot op"
    and u: "undisturbed ops st1"
    by simp_all
  from Cons.IH [OF u r] quiet_exec_pause_state [OF q e] show ?case by simp
qed

lemma paused_output_time:
  "pause_state st = (True, t) \<Longrightarrow> alsa_output_time status st = Inr t"
  by (simp add: pause_state_def alsa_output_time_def)

lemma real_output_time_paused_irrelevant:
  "real_output_time status (st\<lparr>alsa_paused := b\<rparr>) = real_output_time status st"
  by (cases status)
    (simp_all add: real_output_time_def snd_pcm_bytes_to_frames_def split: sum.splits)

lemma alsa_pause_True:
  assumes "alsa_pause True status st = Inr st1"
  shows "real_output_time status st = Inr (alsa_paused_time st1)" and "alsa_paused st1"
  using assms
  by (auto simp: alsa_pause_def real_output_time_paused_irrelevant split: sum.splits)

subsection \<open>Calls that restart playback\<close>

lemma buffering_completed_running: "\<not> alsa_paused (buffering_completed st)"
  by (simp add: buffering_completed_def start_playback_def)

lemma pump_run_paused: "pump_run evs st = Inr st' \<Longrightarrow> alsa_paused st' = alsa_paused st"
  by (drule pump_run_clock) (simp add: clock_def)

lemma write_iteration_paused:
  "write_iteration data st = Inr (rest, st') \<Longrightarrow> alsa_paused st' = alsa_paused st"
  by (drule write_iteration_pause_state) (simp add: pause_state_def)

lemma alsa_write_audio_running:
  "\<not> alsa_paused st \<Longrightarrow> alsa_write_audio data env st = Inr st' \<Longrightarrow> \<not> alsa_paused st'"
proof (induction env arbitrary: data st)
  case Nil
  then show ?case
    by (auto split: sum.splits if_splits dest: write_iteration_paused)
next
  case (Cons evs env)
  from Cons.prems(2) obtain rest st1 where w: "write_iteration data st = Inr (rest, st1)"
    by (auto split: sum.splits)
  show ?case
  proof (cases "rest = []")
    case True
    with Cons.prems w show ?thesis by (auto dest: write_iteration_paused)
  next
    case False
    with Cons.prems(2) w obtain st2
      where p: "pump_run evs (buffering_completed st1) = Inr st2"
        and r: "alsa_write_audio rest env st2 = Inr st'"
      by (auto split: sum.splits)
    from pump_run_paused [OF p] have "\<not> alsa_paused st2"
      by (simp add: buffering_completed_running)
    from Cons.IH [OF this r] show ?thesis .
  qed
qed

lemma alsa_drain_running:
  "\<not> alsa_paused st \<Longrightarrow> alsa_drain env st = Inr st' \<Longrightarrow> \<not> alsa_paused st'"
proof (induction env arbitrary: st)
  case Nil
  then show ?case by (auto split: if_splits)
next
  case (Cons evs env)
  show ?case
  proof (cases "alsa_buffer_data_length st > 0")
    case True
    with Cons.prems(2) obtain st1
      where p: "pump_run evs (buffering_completed st) = Inr st1"
        and r: "alsa_drain env st1 = Inr st'"
      by (auto split: sum.splits)
    from pump_run_paused [OF p] have "\<not> alsa_paused st1"
      by (simp add: buffering_completed_running)
    from Cons.IH [OF this r] show ?thesis .
  next
    case False
    with Cons.prems show ?thesis by simp
  qed
qed

lemma has_to_wait_restarts:
  assumes "has_to_wait op st" and "exec op st = Inr st'"
  shows "\<not> alsa_paused st'"
proof (cases op)
  case (Write data env)
  with assms(1) obtain rest st1 where w: "write_iteration data st = Inr (rest, st1)"
    and n: "rest \<noteq> []"
    by (auto split: sum.splits)
  from assms(2) Write w n obtain evs env' where e: "env = evs # env'"
    by (cases env) auto
  with assms(2) Write w n obtain st2
    where p: "pump_run evs (buffering_completed st1) = Inr st2"
      and r: "alsa_write_audio rest env' st2 = Inr st'"
    by (auto split: sum.splits)
  from pump_run_paused [OF p] have "\<not> alsa_paused st2"
    by (simp add: buffering_completed_running)
  from alsa_write_audio_running [OF this r] show ?thesis .
next
  case (Drain env)
  with assms(1) have d: "0 < alsa_buffer_data_length st" by simp
  with assms(2) Drain obtain evs env' where e: "env = evs # env'"
    by (cases env) auto
  with assms(2) Drain d obtain st1
    where p: "pump_run evs (buffering_completed st) = Inr st1"
      and r: "alsa_drain env' st1 = Inr st'"
    by (auto split: sum.splits)
  from pump_run_paused [OF p] have "\<not> alsa_paused st1"
    by (simp add: buffering_completed_running)
  from alsa_drain_running [OF this r] show ?thesis .
qed (use assms in auto)

lemma running_output_time:
  "\<not> alsa_paused st \<Longrightarrow> alsa_output_time status st = real_output_time status st"
  by (simp add: alsa_output_time_def)

text \<open>
  The output time of a paused session stays at its snapshot across an undisturbed
  sequence of calls; from there a call that has to wait restarts playback, and
  \<open>alsa_pause (1)\<close> and \<open>alsa_flush\<close> put their own snapshot in its place.
\<close>

lemma frozen_until:
  assumes p: "pause_state st1 = (True, t)" and u: "undisturbed ops st1"
    and r: "run ops st1 = Inr st2"
  shows "alsa_paused st2 \<and> alsa_paused_time st2 = t \<and>
         alsa_output_time status st2 = Inr t \<and>
         (\<forall>op st3. has_to_wait op st2 \<and> exec op st2 = Inr st3 \<longrightarrow>
            \<not> alsa_paused st3 \<and> alsa_output_time status st3 = real_output_time status st3) \<and>
         (\<forall>s st3. alsa_pause True s st2 = Inr st3 \<longrightarrow>
            alsa_paused st3 \<and> real_output_time s st2 = Inr (alsa_paused_time st3) \<and>
            alsa_output_time status st3 = Inr (alsa_paused_time st3)) \<and>
         (\<forall>t' env st3. alsa_flush t' env st2 = Inr st3 \<longrightarrow>
            alsa_paused st3 \<and> alsa_output_time status st3 = Inr t')"
proof (intro conjI allI impI)
  from undisturbed_pause_state [OF u r] p have q: "pause_state st2 = (True, t)"
    by simp
  then show "alsa_paused st2" and "alsa_paused_time st2 = t"
    by (simp_all add: pause_state_def)
  from q show "alsa_output_time status st2 = Inr t"
    by (rule paused_output_time)
next
  fix op st3
  assume "has_to_wait op st2 \<and> exec op st2 = Inr st3"
  then have "\<not> alsa_paused st3"
    using has_to_wait_restarts by blast
  then show "\<not> alsa_paused st3"
    and "alsa_output_time status st3 = real_output_time status st3"
    by (simp_all add: running_output_time)
next
  fix s st3
  assume a: "alsa_pause True s st2 = Inr st3"
  from alsa_pause_True [OF a]
  show "alsa_paused st3" and "real_output_time s st2 = Inr (alsa_paused_time st3)"
    by simp_all
  from alsa_pause_True(2) [OF a]
  show "alsa_output_time status st3 = Inr (alsa_paused_time st3)"
    by (simp add: alsa_output_time_def)
next
  fix t' env st3
  assume a: "alsa_flush t' env st2 = Inr st3"
  from alsa_flush_result(1) [OF a]
  show "alsa_paused st3" and "alsa_output_time status st3 = Inr t'"
    by (simp_all add: clock_def alsa_output_time_def)
qed

lemma cdiv_times_1000: "cdiv (t * 1000) 1000 = t"
  by (simp add: cdiv_def abs_mult sgn_mult mult_sgn_abs)

lemma int_of_int64_id: "is_int x \<Longrightarrow> int_of_int64 x = x"
  by (simp add: is_int_def int_of_int64_def)

lemma wrap64_id: "is_int64 x \<Longrightarrow> wrap64 x = x"
  by (simp add: is_int64_def wrap64_def)

lemma div64_pos: "0 < b \<Longrightarrow> div64 a b = Inr (cdiv a b)"
  by (simp add: div64_def)

lemma cdiv_nonneg: "0 \<le> a \<Longrightarrow> 0 \<le> b \<Longrightarrow> 0 \<le> cdiv a b"
  by (simp add: cdiv_def sgn_if pos_imp_zdiv_nonneg_iff)

subsection \<open>The written time moves forward\<close>

lemma advanced_refl: "capacity_ok st \<Longrightarrow> advanced st st"
  by (simp add: advanced_def)

lemma advanced_trans: "advanced st st1 \<Longrightarrow> advanced st1 st2 \<Longrightarrow> advanced st st2"
  by (auto simp: advanced_def)

lemma pump_top_advanced: "capacity_ok st \<Longrightarrow> advanced st (pump_top st)"
  by (simp add: advanced_def capacity_ok_def pump_top_def Let_def)

lemma pump_bottom_advanced:
  assumes "capacity_ok st" and "pump_bottom len reply recovered st = Inr st'"
  shows "advanced st st'"
proof -
  define ret where "ret = snd_pcm_writei reply (snd_pcm_bytes_to_frames st len)"
  define taken where "taken = (if ret < 0 then 0 else ret)"
  have "0 \<le> taken" by (simp add: taken_def)
  then have "0 \<le> taken * frame_bytes st"
    using assms(1) by (simp add: capacity_ok_def)
  moreover have "st' = st\<lparr>
      pcm_played := pcm_played st @
        take (nat (taken * frame_bytes st))
          (drop (nat (alsa_buffer_data_start st)) (alsa_buffer st)),
      alsa_buffer_data_start :=
        crem (alsa_buffer_data_start st + taken * frame_bytes st) (alsa_buffer_length st),
      alsa_buffer_data_length := alsa_buffer_data_length st - taken * frame_bytes st,
      alsa_buffer_read_length := 0\<rparr>"
    using assms(2)
    by (auto simp: pump_bottom_def Let_def taken_def ret_def snd_pcm_frames_to_bytes_def
        split: if_splits)
  ultimately show ?thesis
    using assms(1) by (simp add: advanced_def capacity_ok_def)
qed

lemma pump_advanced:
  assumes "capacity_ok st" and "pump ev st = Inr st'"
  shows "advanced st st'"
proof (cases ev)
  case Wake
  with assms show ?thesis
    by (cases "pump_thread st") (auto simp: pump_top_advanced advanced_refl)
next
  case (WriteiReturns reply recovered)
  show ?thesis
  proof (cases "pump_thread st")
    case (InWritei len)
    with assms(2) WriteiReturns obtain st1
      where b: "pump_bottom len reply recovered st = Inr st1"
        and s: "st' = pump_top (st1\<lparr>pump_thread := AtLoopTest\<rparr>)"
      by (auto split: sum.splits)
    have 1: "advanced st st1" by (rule pump_bottom_advanced [OF assms(1) b])
    then have 2: "advanced st (st1\<lparr>pump_thread := AtLoopTest\<rparr>)"
      by (simp add: advanced_def capacity_ok_def)
    then have "capacity_ok (st1\<lparr>pump_thread := AtLoopTest\<rparr>)"
      by (simp add: advanced_def)
    from advanced_trans [OF 2 pump_top_advanced [OF this]] show ?thesis
      by (simp add: s)
  qed (use assms WriteiReturns in \<open>auto simp: advanced_refl\<close>)
qed

lemma pump_run_advanced:
  "capacity_ok st \<Longrightarrow> pump_run evs st = Inr st' \<Longrightarrow> advanced st st'"
proof (induction evs arbitrary: st)
  case Nil
  then show ?case by (simp add: advanced_refl)
next
  case (Cons ev evs)
  from Cons.prems(2) obtain st1 where 1: "pump ev st = Inr st1" and 2: "pump_run evs st1 = Inr st'"
    by (auto split: sum.splits)
  have a: "advanced st st1" by (rule pump_advanced [OF Cons.prems(1) 1])
  then have "capacity_ok st1" by (simp add: advanced_def)
  from advanced_trans [OF a Cons.IH [OF this 2]] show ?case .
qed

lemma write_iteration_advanced:
  assumes "capacity_ok st" and "write_iteration data st = Inr (rest, st')"
  shows "advanced st st'"
proof -
  define writable where
    "writable = min (alsa_buffer_length st - alsa_buffer_data_length st) (int (length data))"
  have w: "0 \<le> writable" "alsa_buffer_data_length st + writable \<le> alsa_buffer_length st"
    using assms(1) by (auto simp: writable_def capacity_ok_def)
  have "0 \<le> cdiv (cdiv writable (frame_bytes st) * 1000000) (alsa_rate st)"
    using assms(1) w(1) by (intro cdiv_nonneg mult_nonneg_nonneg) (auto simp: capacity_ok_def)
  moreover have "alsa_time st' = alsa_time st +
      cdiv (cdiv writable (frame_bytes st) * 1000000) (alsa_rate st)"
    and "alsa_buffer_data_length st' = alsa_buffer_data_length st + writable"
    and "frame_bytes st' = frame_bytes st" and "alsa_rate st' = alsa_rate st"
    and "alsa_buffer_length st' = alsa_buffer_length st"
    using assms(2)
    by (auto simp: write_iteration_def Let_def writable_def snd_pcm_bytes_to_frames_def
        split: if_splits)
  ultimately show ?thesis
    using assms(1) w(2) by (simp add: advanced_def capacity_ok_def)
qed

lemma buffering_completed_advanced:
  "capacity_ok st \<Longrightarrow> advanced st (buffering_completed st)"
  by (simp add: advanced_def capacity_ok_def buffering_completed_def start_playback_def)

lemma alsa_write_audio_advanced:
  "capacity_ok st \<Longrightarrow> alsa_write_audio data env st = Inr st' \<Longrightarrow> advanced st st'"
proof (induction env arbitrary: data st)
  case Nil
  then show ?case
    by (auto split: sum.splits if_splits dest: write_iteration_advanced)
next
  case (Cons evs env)
  from Cons.prems(2) obtain rest st1 where w: "write_iteration data st = Inr (rest, st1)"
    by (auto split: sum.splits)
  have a1: "advanced st st1" by (rule write_iteration_advanced [OF Cons.prems(1) w])
  show ?case
  proof (cases "rest = []")
    case True
    with Cons.prems(2) w a1 show ?thesis by simp
  next
    case False
    with Cons.prems(2) w obtain st2
      where p: "pump_run evs (buffering_completed st1) = Inr st2"
        and r: "alsa_write_audio rest env st2 = Inr st'"
      by (auto split: sum.splits)
    from a1 have "capacity_ok st1" by (simp add: advanced_def)
    then have a2: "advanced st1 (buffering_completed st1)"
      by (rule buffering_completed_advanced)
    then have "capacity_ok (buffering_completed st1)" by (simp add: advanced_def)
    from pump_run_advanced [OF this p] have a3: "advanced (buffering_completed st1) st2" .
    then have "capacity_ok st2" by (simp add: advanced_def)
    from Cons.IH [OF this r] have a4: "advanced st2 st'" .
    from a1 a2 a3 a4 show ?thesis by (blast intro: advanced_trans)
  qed
qed

lemma alsa_drain_advanced:
  "capacity_ok st \<Longrightarrow> alsa_drain env st = Inr st' \<Longrightarrow> advanced st st'"
proof (induction env arbitrary: st)
  case Nil
  then show ?case by (auto simp: advanced_refl split: if_splits)
next
  case (Cons evs env)
  show ?case
  proof (cases "alsa_buffer_data_length st > 0")
    case True
    with Cons.prems(2) obtain st1
      where p: "pump_run evs (buffering_completed st) = Inr st1"
        and r: "alsa_drain env st1 = Inr st'"
      by (auto split: sum.splits)
    have a1: "advanced st (buffering_completed st)"
      by (rule buffering_completed_advanced [OF Cons.prems(1)])
    then have "capacity_ok (buffering_completed st)" by (simp add: advanced_def)
    from pump_run_advanced [OF this p] have a2: "advanced (buffering_completed st) st1" .
    then have "capacity_ok st1" by (simp add: advanced_def)
    from Cons.IH [OF this r] a1 a2 show ?thesis by (blast intro: advanced_trans)
  next
    case False
    with Cons.prems show ?thesis by (simp add: advanced_refl)
  qed
qed

lemma flush_wait_capacity_ok:
  "capacity_ok st \<Longrightarrow> flush_wait env st = Inr st' \<Longrightarrow> capacity_ok st'"
proof (induction env arbitrary: st)
  case Nil
  then show ?case by (simp split: if_splits)
next
  case (Cons evs env)
  show ?case
  proof (cases "alsa_buffer_read_length st \<noteq> 0")
    case True
    with Cons.prems(2) obtain st1 where p: "pump_run evs st = Inr st1"
      and r: "flush_wait env st1 = Inr st'"
      by (auto split: sum.splits)
    from pump_run_advanced [OF Cons.prems(1) p] have "capacity_ok st1"
      by (simp add: advanced_def)
    from Cons.IH [OF this r] show ?thesis .
  next
    case False
    with Cons.prems show ?thesis by simp
  qed
qed

lemma exec_capacity_ok:
  assumes "capacity_ok st" and "exec op st = Inr st'"
  shows "capacity_ok st'"
proof (cases op)
  case (Write data env)
  with assms alsa_write_audio_advanced show ?thesis by (auto simp: advanced_def)
next
  case (Drain env)
  with assms alsa_drain_advanced show ?thesis by (auto simp: advanced_def)
next
  case (Flush time env)
  with assms(2) obtain st1
    where f: "flush_wait env (st\<lparr>alsa_time := time * 1000, alsa_paused := True,
                alsa_paused_time := time\<rparr>) = Inr st1"
      and s: "st' = st1\<lparr>alsa_buffer_data_start := 0, alsa_buffer_data_length := 0\<rparr>"
    by (auto simp: alsa_flush_def split: sum.splits)
  have "capacity_ok (st\<lparr>alsa_time := time * 1000, alsa_paused := True,
                alsa_paused_time := time\<rparr>)"
    using assms(1) by (simp add: capacity_ok_def)
  from flush_wait_capacity_ok [OF this f] show ?thesis
    by (simp add: s capacity_ok_def)
next
  case (SetWrittenTime time)
  with assms show ?thesis by (auto simp: alsa_set_written_time_def capacity_ok_def)
next
  case (Pause pause status)
  with assms show ?thesis
    by (auto simp: alsa_pause_def capacity_ok_def split: if_splits sum.splits)
next
  case (Feeder evs)
  with assms pump_run_advanced show ?thesis by (auto simp: advanced_def)
qed

lemma exec_advanced:
  assumes "capacity_ok st" and "exec op st = Inr st'" and "\<not> resets_written_time op"
  shows "alsa_time st \<le> alsa_time st'"
proof (cases op)
  case (Write data env)
  with assms alsa_write_audio_advanced show ?thesis by (auto simp: advanced_def)
next
  case (Drain env)
  with assms alsa_drain_advanced show ?thesis by (auto simp: advanced_def)
next
  case (Pause pause status)
  with assms show ?thesis
    by (auto simp: alsa_pause_def split: if_splits sum.splits)
next
  case (Feeder evs)
  with assms pump_run_advanced show ?thesis by (auto simp: advanced_def)
qed (use assms in auto)

lemma run_advanced:
  "capacity_ok st \<Longrightarrow> run ops st = Inr st' \<Longrightarrow> \<forall>op \<in> set ops. \<not> resets_written_time op \<Longrightarrow>
     alsa_time st \<le> alsa_time st'"
proof (induction ops arbitrary: st)
  case Nil
  then show ?case by simp
next
  case (Cons op ops)
  from Cons.prems(2) obtain st1 where e: "exec op st = Inr st1" and r: "run ops st1 = Inr st'"
    by (auto split: sum.splits)
  have "alsa_time st \<le> alsa_time st1"
    using exec_advanced [OF Cons.prems(1) e] Cons.prems(3) by simp
  moreover have "alsa_time st1 \<le> alsa_time st'"
    using Cons.IH [OF exec_capacity_ok [OF Cons.prems(1) e] r] Cons.prems(3) by simp
  ultimately show ?case by simp
qed

subsection \<open>The ring buffer keeps the bytes in order\<close>






























subsection \<open>A successful open gives an open session\<close>

lemma session_ok_capacity_ok: "session_ok st \<Longrightarrow> capacity_ok st"
  by (simp add: session_ok_def capacity_ok_def)

lemma alsa_open_audio_session_ok:
  assumes "alsa_open_audio rate output_buffer_size dev st = Inr (1, st')"
    and "0 < rate" and "0 < hw_frame_bytes dev" and "0 < alsa_buffer_length st'"
  shows "session_ok st'" and "queued st' = []" and "alsa_paused st'"
    and "pump_thread st' = AtLoopTest"
  using assms
  by (auto simp: alsa_open_audio_def Let_def session_ok_def queued_def ring_def
      split: if_splits sum.splits)

subsection \<open>Sample runs\<close>

lemma example_flush:
  "alsa_flush 1234 [[WriteiReturns 1 0]] example_session = Inr example_flushed"
  by code_simp

lemma example_pause: "alsa_pause True (Some 44100) example_session = Inr example_paused"
  by code_simp

subsection \<open>A failed device write\<close>

lemma pump_bottom_nothing_taken:
  assumes "snd_pcm_writei reply (snd_pcm_bytes_to_frames st len) \<le> 0"
    and "alsa_buffer_length st \<noteq> 0"
  shows "pump_bottom len reply recovered st =
           Inr (st\<lparr>alsa_buffer_data_start :=
                      crem (alsa_buffer_data_start st) (alsa_buffer_length st),
                    alsa_buffer_read_length := 0\<rparr>)"
proof (cases "snd_pcm_writei reply (snd_pcm_bytes_to_frames st len) < 0")
  case True
  with assms(2) show ?thesis
    by (simp add: pump_bottom_def Let_def snd_pcm_frames_to_bytes_def)
next
  case False
  with assms(1) have "snd_pcm_writei reply (snd_pcm_bytes_to_frames st len) = 0"
    by simp
  with assms(2) show ?thesis
    by (simp add: pump_bottom_def Let_def snd_pcm_frames_to_bytes_def)
qed

section \<open>The claims\<close>



text \<open>
  C2.  While the session is not paused, the rate is positive and \<open>snd_pcm_status\<close>
  reports a delay, \<open>alsa_output_time\<close> returns the written time less the time of the
  frames queued and not in flight plus the frames of the reported delay (times
  1,000,000, divided by the rate), divided by 1000 to give milliseconds, in C's
  truncating division, wherever the values on the way fit the C types that hold them.
\<close>

theorem output_time_not_paused:
  assumes "\<not> alsa_paused st" and "0 < alsa_rate st" and "output_time_fits st delay"
  shows "alsa_output_time (Some delay) st =
           Inr (reconstructed_output_time (alsa_time st)
             (snd_pcm_bytes_to_frames st
                (alsa_buffer_data_length st - alsa_buffer_read_length st))
             delay (alsa_rate st))"
proof -
  let ?frames = "snd_pcm_bytes_to_frames st
      (alsa_buffer_data_length st - alsa_buffer_read_length st)"
  from assms(3) have
    1: "int_of_int64 (alsa_buffer_data_length st - alsa_buffer_read_length st) =
        alsa_buffer_data_length st - alsa_buffer_read_length st"
    and 2: "wrap64 (?frames + delay) = ?frames + delay"
    and 3: "wrap64 ((?frames + delay) * 1000000) = (?frames + delay) * 1000000"
    and 4: "wrap64 (alsa_time st - cdiv ((?frames + delay) * 1000000) (alsa_rate st)) =
        alsa_time st - cdiv ((?frames + delay) * 1000000) (alsa_rate st)"
    and 5: "int_of_int64 (reconstructed_output_time (alsa_time st) ?frames delay (alsa_rate st)) =
        reconstructed_output_time (alsa_time st) ?frames delay (alsa_rate st)"
    by (simp_all add: output_time_fits_def int_of_int64_id wrap64_id)
  have "real_output_time (Some delay) st =
      Inr (int_of_int64 (cdiv (wrap64 (alsa_time st -
        cdiv ((?frames + delay) * 1000000) (alsa_rate st))) 1000))"
    by (simp only: real_output_time_def option.case 1 2 3 div64_pos [OF assms(2)] sum.case)
  also have "\<dots> = Inr (int_of_int64
      (reconstructed_output_time (alsa_time st) ?frames delay (alsa_rate st)))"
    by (simp only: 4 reconstructed_output_time_def)
  also have "\<dots> = Inr (reconstructed_output_time (alsa_time st) ?frames delay (alsa_rate st))"
    by (simp only: 5)
  finally show ?thesis
    using assms(1) by (simp add: alsa_output_time_def)
qed

theorem output_time_not_paused_witness:
  "\<not> alsa_paused example_session \<and> 0 < alsa_rate example_session \<and>
   output_time_fits example_session 44100 \<and>
   reconstructed_output_time 5000000 1 44100 44100 = 3999 \<and>
   alsa_output_time (Some 44100) example_session = Inr 3999"
proof -
  have a: "\<not> alsa_paused example_session" "0 < alsa_rate example_session"
    by (simp_all add: example_session_def)
  have o: "output_time_fits example_session 44100"
    by code_simp
  have f: "snd_pcm_bytes_to_frames example_session
      (alsa_buffer_data_length example_session - alsa_buffer_read_length example_session) = 1"
    by (simp add: example_session_def snd_pcm_bytes_to_frames_def cdiv_def)
  have v: "reconstructed_output_time 5000000 1 44100 44100 = 3999"
    by (simp add: reconstructed_output_time_def cdiv_def)
  have e: "alsa_time example_session = 5000000" "alsa_rate example_session = 44100"
    by (simp_all add: example_session_def)
  from output_time_not_paused [OF a o]
  have "alsa_output_time (Some 44100) example_session = Inr 3999"
    by (simp only: f e v)
  with a o v show ?thesis by (simp only: simp_thms)
qed

text \<open>
  C3, as amended.  After \<open>alsa_pause (1)\<close> every \<open>alsa_output_time\<close> returns the
  snapshot taken at the moment of pausing, whatever the device now reports, and goes on
  doing so across any undisturbed sequence of calls, \<open>alsa_pause (0)\<close> among them, which
  changes no global.  The value changes only in these ways: a write or drain that has
  to wait restarts playback, and the output time is the running one again; another
  \<open>alsa_pause (1)\<close> takes a new snapshot; \<open>alsa_flush (t)\<close> sets it to \<open>t\<close>.
\<close>

theorem pause_freezes_output_time:
  assumes "alsa_pause True status st = Inr st1"
    and "undisturbed ops st1"
    and "run ops st1 = Inr st2"
  shows "real_output_time status st = Inr (alsa_paused_time st1) \<and>
         alsa_paused st2 \<and>
         alsa_output_time status' st2 = Inr (alsa_paused_time st1) \<and>
         (\<forall>op st3. has_to_wait op st2 \<and> exec op st2 = Inr st3 \<longrightarrow>
            \<not> alsa_paused st3 \<and> alsa_output_time status' st3 = real_output_time status' st3) \<and>
         (\<forall>s st3. alsa_pause True s st2 = Inr st3 \<longrightarrow>
            alsa_paused st3 \<and> real_output_time s st2 = Inr (alsa_paused_time st3) \<and>
            alsa_output_time status' st3 = Inr (alsa_paused_time st3)) \<and>
         (\<forall>t env st3. alsa_flush t env st2 = Inr st3 \<longrightarrow>
            alsa_paused st3 \<and> alsa_output_time status' st3 = Inr t)"
proof -
  have "pause_state st1 = (True, alsa_paused_time st1)"
    using alsa_pause_True(2) [OF assms(1)] by (simp add: pause_state_def)
  from frozen_until [OF this assms(2,3), of status'] alsa_pause_True(1) [OF assms(1)]
  show ?thesis by simp
qed

theorem pause_freezes_output_time_witness:
  "alsa_pause True (Some 44100) example_session = Inr example_paused \<and>
   undisturbed [Pause False (Some 0), Feeder [WriteiReturns 1 0], Write [1, 2, 3, 4] [[Wake]]]
     example_paused \<and>
   run [Pause False (Some 0), Feeder [WriteiReturns 1 0], Write [1, 2, 3, 4] [[Wake]]]
     example_paused = Inr example_still_paused \<and>
   real_output_time (Some 44100) example_session = Inr 3999 \<and>
   alsa_paused example_still_paused \<and>
   alsa_output_time (Some 0) example_still_paused = Inr 3999 \<and>
   has_to_wait (Write [21, 22, 23, 24, 25, 26, 27, 28, 29, 30, 31, 32]
                  [[Wake, WriteiReturns 1 0]]) example_still_paused \<and>
   exec (Write [21, 22, 23, 24, 25, 26, 27, 28, 29, 30, 31, 32] [[Wake, WriteiReturns 1 0]])
     example_still_paused = Inr example_restarted \<and>
   \<not> alsa_paused example_restarted \<and>
   alsa_output_time (Some 0) example_restarted = real_output_time (Some 0) example_restarted \<and>
   alsa_pause True (Some 0) example_still_paused =
     Inr (example_still_paused\<lparr>alsa_paused_time := 4999\<rparr>) \<and>
   alsa_output_time (Some 0) (example_still_paused\<lparr>alsa_paused_time := 4999\<rparr>) = Inr 4999 \<and>
   alsa_flush 7 [] example_still_paused =
     Inr (example_still_paused\<lparr>alsa_buffer_data_start := 0, alsa_buffer_data_length := 0,
            alsa_time := 7000, alsa_paused_time := 7\<rparr>) \<and>
   alsa_output_time (Some 0)
     (example_still_paused\<lparr>alsa_buffer_data_start := 0, alsa_buffer_data_length := 0,
        alsa_time := 7000, alsa_paused_time := 7\<rparr>) = Inr 7"
proof -
  let ?ops = "[Pause False (Some 0), Feeder [WriteiReturns 1 0], Write [1, 2, 3, 4] [[Wake]]]"
  let ?w = "Write [21, 22, 23, 24, 25, 26, 27, 28, 29, 30, 31, 32] [[Wake, WriteiReturns 1 0]]"
  let ?p = "example_still_paused\<lparr>alsa_paused_time := 4999\<rparr>"
  let ?f = "example_still_paused\<lparr>alsa_buffer_data_start := 0, alsa_buffer_data_length := 0,
            alsa_time := 7000, alsa_paused_time := 7\<rparr>"
  have u: "undisturbed ?ops example_paused" by code_simp
  have r: "run ?ops example_paused = Inr example_still_paused" by code_simp
  have t: "alsa_paused_time example_paused = 3999" by (simp add: example_paused_def)
  have h: "has_to_wait ?w example_still_paused" by code_simp
  have e: "exec ?w example_still_paused = Inr example_restarted" by code_simp
  have p: "alsa_pause True (Some 0) example_still_paused = Inr ?p" by code_simp
  have pt: "alsa_paused_time ?p = 4999" by simp
  have f: "alsa_flush 7 [] example_still_paused = Inr ?f" by code_simp
  note c = pause_freezes_output_time [OF example_pause u r, of "Some 0", unfolded t]
  from c have 1: "real_output_time (Some 44100) example_session = Inr 3999"
    by (rule conjunct1)
  from c have 2: "alsa_paused example_still_paused"
    and 3: "alsa_output_time (Some 0) example_still_paused = Inr 3999"
    by blast+
  from c h e have 4: "\<not> alsa_paused example_restarted"
    and 5: "alsa_output_time (Some 0) example_restarted =
      real_output_time (Some 0) example_restarted"
    by blast+
  from c p have "alsa_output_time (Some 0) ?p = Inr (alsa_paused_time ?p)"
    by blast
  then have 6: "alsa_output_time (Some 0) ?p = Inr 4999"
    by (simp only: pt)
  from c f have 7: "alsa_output_time (Some 0) ?f = Inr 7"
    by blast
  from example_pause u r 1 2 3 h e 4 5 p 6 f 7 show ?thesis
    by (simp only: simp_thms)
qed

text \<open>
  C3, as stated, fails: after \<open>alsa_pause (1)\<close> and \<open>alsa_pause (0)\<close> the session is
  still paused and \<open>alsa_output_time\<close> still returns the snapshot (3999 ms), not the
  time the running clock would give (4999 ms with no delay left in the hardware).
\<close>

theorem unpause_does_not_resume:
  "alsa_pause True (Some 44100) example_session = Inr example_paused \<and>
   alsa_pause False (Some 0) example_paused = Inr example_paused \<and>
   alsa_paused example_paused \<and>
   alsa_output_time (Some 0) example_paused = Inr 3999 \<and>
   real_output_time (Some 0) example_paused = Inr 4999"
  by code_simp

text \<open>
  C4.  When \<open>alsa_flush (t)\<close> has returned, for \<open>t\<close> any value of type \<open>int\<close>,
  \<open>alsa_written_time\<close> returns \<open>t\<close> and the ring buffer holds no data.
\<close>

theorem flush_written_time_and_occupancy:
  assumes "alsa_flush t env st = Inr st'" and "is_int t"
  shows "alsa_written_time st' = t \<and> alsa_buffer_data_length st' = 0"
  using alsa_flush_result [OF assms(1)] assms(2)
  by (simp add: alsa_written_time_def clock_def cdiv_times_1000 int_of_int64_id)

theorem flush_written_time_and_occupancy_witness:
  "alsa_flush 1234 [[WriteiReturns 1 0]] example_session = Inr example_flushed \<and>
   is_int 1234 \<and>
   alsa_written_time example_flushed = 1234 \<and>
   alsa_buffer_data_length example_flushed = 0"
proof -
  have i: "is_int 1234" by (simp add: is_int_def)
  from flush_written_time_and_occupancy [OF example_flush i] example_flush i
  show ?thesis by simp
qed

text \<open>
  C5, as amended.  On an open session the written time (\<open>alsa_time\<close>, in
  microseconds) never goes down across a sequence of calls and pump steps that contains
  neither \<open>alsa_flush\<close> nor \<open>alsa_set_written_time\<close>; each of these two sets it to
  its argument (in milliseconds).
\<close>

theorem written_time_forward:
  assumes "capacity_ok st"
  shows "(\<forall>ops st'. run ops st = Inr st' \<and> (\<forall>op \<in> set ops. \<not> resets_written_time op) \<longrightarrow>
            alsa_time st \<le> alsa_time st') \<and>
         (\<forall>t env st'. exec (Flush t env) st = Inr st' \<longrightarrow> alsa_time st' = t * 1000) \<and>
         (\<forall>t st'. exec (SetWrittenTime t) st = Inr st' \<longrightarrow> alsa_time st' = 1000 * t)"
proof (intro conjI allI impI)
  fix ops st'
  assume "run ops st = Inr st' \<and> (\<forall>op \<in> set ops. \<not> resets_written_time op)"
  then show "alsa_time st \<le> alsa_time st'"
    using run_advanced [OF assms] by blast
next
  fix t env st'
  assume "exec (Flush t env) st = Inr st'"
  then show "alsa_time st' = t * 1000"
    using alsa_flush_result(1) [of t env st st'] by (simp add: clock_def)
next
  fix t st'
  assume "exec (SetWrittenTime t) st = Inr st'"
  then show "alsa_time st' = 1000 * t"
    by (auto simp: alsa_set_written_time_def)
qed

theorem written_time_forward_witness:
  "capacity_ok example_session \<and>
   run [Write [1, 2, 3, 4, 5, 6, 7, 8, 9, 10] [[WriteiReturns 1 0]],
        Feeder [WriteiReturns (- 32) (- 5)], Pause True (Some 0)] example_session =
     Inr (example_session\<lparr>alsa_buffer_data_start := 12, alsa_buffer_data_length := 14,
            alsa_time := 5000045, alsa_paused := True, alsa_paused_time := 5000,
            pcm_played := [9, 10, 11, 12]\<rparr>) \<and>
   \<not> resets_written_time (Write [1, 2, 3, 4, 5, 6, 7, 8, 9, 10] [[WriteiReturns 1 0]]) \<and>
   \<not> resets_written_time (Feeder [WriteiReturns (- 32) (- 5)]) \<and>
   \<not> resets_written_time (Pause True (Some 0)) \<and>
   alsa_time example_session \<le> 5000045 \<and>
   exec (Flush 1234 [[WriteiReturns 1 0]]) example_session = Inr example_flushed \<and>
   alsa_time example_flushed = 1234 * 1000 \<and>
   exec (SetWrittenTime 7) example_session = Inr (example_session\<lparr>alsa_time := 7000\<rparr>) \<and>
   alsa_time (example_session\<lparr>alsa_time := 7000\<rparr>) = 1000 * 7"
proof -
  let ?ops = "[Write [1, 2, 3, 4, 5, 6, 7, 8, 9, 10] [[WriteiReturns 1 0]],
        Feeder [WriteiReturns (- 32) (- 5)], Pause True (Some 0)]"
  let ?st' = "example_session\<lparr>alsa_buffer_data_start := 12, alsa_buffer_data_length := 14,
            alsa_time := 5000045, alsa_paused := True, alsa_paused_time := 5000,
            pcm_played := [9, 10, 11, 12]\<rparr>"
  have c: "capacity_ok example_session"
    by (simp add: capacity_ok_def example_session_def)
  have r: "run ?ops example_session = Inr ?st'"
    by code_simp
  have n: "\<forall>op \<in> set ?ops. \<not> resets_written_time op" by simp
  have f: "exec (Flush 1234 [[WriteiReturns 1 0]]) example_session = Inr example_flushed"
    using example_flush by simp
  have s: "exec (SetWrittenTime 7) example_session = Inr (example_session\<lparr>alsa_time := 7000\<rparr>)"
    by (simp add: alsa_set_written_time_def)
  note w = written_time_forward [OF c]
  from w r n have 1: "alsa_time example_session \<le> alsa_time ?st'" by blast
  from w f have 2: "alsa_time example_flushed = 1234 * 1000" by blast
  from w s have 3: "alsa_time (example_session\<lparr>alsa_time := 7000\<rparr>) = 1000 * 7" by blast
  from 1 have 1: "alsa_time example_session \<le> 5000045" by simp
  have n': "\<not> resets_written_time (Write [1, 2, 3, 4, 5, 6, 7, 8, 9, 10] [[WriteiReturns 1 0]])"
    "\<not> resets_written_time (Feeder [WriteiReturns (- 32) (- 5)])"
    "\<not> resets_written_time (Pause True (Some 0))"
    by simp_all
  from c r n' 1 f 2 s 3 show ?thesis by (simp only: simp_thms)
qed

text \<open>
  C5, as stated, fails: \<open>alsa_set_written_time (0)\<close> is no flush and takes the
  written time from 5 s back to 0.
\<close>

theorem set_written_time_moves_back:
  "capacity_ok example_session \<and>
   exec (SetWrittenTime 0) example_session = Inr (example_session\<lparr>alsa_time := 0\<rparr>) \<and>
   \<not> is_flush (SetWrittenTime 0) \<and>
   alsa_time (example_session\<lparr>alsa_time := 0\<rparr>) < alsa_time example_session"
  by code_simp

text \<open>
  C6.  When \<open>alsa_open_audio\<close> succeeds, the capacity of the ring buffer is the
  number of bytes of the frames that \<open>software_buffer_ms\<close> milliseconds hold at the rate,
  where \<open>software_buffer_ms\<close> is the larger of half the target and the target less the
  hardware's buffer in milliseconds, itself the negotiated frames times 1000 divided by
  the rate, wherever the values on the way fit the C types that hold them.
\<close>

theorem open_capacity:
  assumes "alsa_open_audio rate output_buffer_size dev st = Inr (1, st')"
    and "capacity_fits (hw_frames dev) rate output_buffer_size (frame_bytes st')"
  shows "alsa_buffer_length st' =
           capacity_bytes
             (software_buffer_ms output_buffer_size (hardware_buffer_ms (hw_frames dev) rate))
             rate (frame_bytes st')"
proof -
  let ?hard = "hardware_buffer_ms (hw_frames dev) rate"
  let ?soft = "software_buffer_ms output_buffer_size ?hard"
  from assms(1) obtain hard
    where d: "div64 (wrap64 (wrap64 (hw_frames dev) * 1000)) rate = Inr hard"
      and l: "alsa_buffer_length st' =
        int_of_int64 (cdiv (wrap64 (max (cdiv output_buffer_size 2)
          (int_of_int64 (output_buffer_size - int_of_int64 hard)) * rate)) 1000
          * hw_frame_bytes dev)"
      and f: "frame_bytes st' = hw_frame_bytes dev"
    by (auto simp: alsa_open_audio_def Let_def split: if_splits sum.splits)
  from assms(2) have
    1: "wrap64 (hw_frames dev) = hw_frames dev"
    and 2: "wrap64 (hw_frames dev * 1000) = hw_frames dev * 1000"
    and 3: "int_of_int64 ?hard = ?hard"
    and 4: "int_of_int64 (output_buffer_size - ?hard) = output_buffer_size - ?hard"
    and 5: "wrap64 (?soft * rate) = ?soft * rate"
    and 6: "int_of_int64 (capacity_bytes ?soft rate (frame_bytes st')) =
        capacity_bytes ?soft rate (frame_bytes st')"
    by (simp_all add: capacity_fits_def int_of_int64_id wrap64_id)
  from d have "hard = ?hard"
    by (auto simp: div64_def 1 2 hardware_buffer_ms_def split: if_splits)
  with l have "alsa_buffer_length st' =
      int_of_int64 (cdiv (wrap64 (?soft * rate)) 1000 * hw_frame_bytes dev)"
    by (simp add: 3 4 software_buffer_ms_def)
  then show ?thesis
    using 6 by (simp add: 5 f capacity_bytes_def)
qed

theorem open_capacity_witness:
  "alsa_open_audio 8000 10 example_replies example_session = Inr (1, example_opened) \<and>
   capacity_fits 40 8000 10 2 \<and> hardware_buffer_ms 40 8000 = 5 \<and>
   software_buffer_ms 10 5 = 5 \<and> capacity_bytes 5 8000 2 = 80 \<and>
   alsa_buffer_length example_opened = 80"
proof -
  have o: "alsa_open_audio 8000 10 example_replies example_session = Inr (1, example_opened)"
    by code_simp
  have h: "hardware_buffer_ms 40 8000 = 5" by (simp add: hardware_buffer_ms_def cdiv_def)
  have s: "software_buffer_ms 10 5 = 5" by (simp add: software_buffer_ms_def cdiv_def)
  have c: "capacity_bytes 5 8000 2 = 80" by (simp add: capacity_bytes_def cdiv_def)
  have d: "hw_frames example_replies = 40" "frame_bytes example_opened = 2"
    by (simp_all add: example_replies_def example_opened_def)
  have f: "capacity_fits 40 8000 10 2"
    by (simp add: capacity_fits_def h s c is_int_def is_int64_def)
  from open_capacity [OF o, unfolded d, OF f] have "alsa_buffer_length example_opened = 80"
    by (simp only: h s c)
  with o f h s c show ?thesis by (simp only: simp_thms)
qed

text \<open>
  C7.  When the \<open>snd_pcm_writei\<close> of the pump thread returns an error, then whatever
  \<open>snd_pcm_recover\<close> returns, and also when it is not called, the globals change as
  if the device had taken 0 frames: the start stays (modulo the capacity), the
  occupancy stays, \<open>alsa_buffer_read_length\<close> is cleared; the step is the same as the
  one for a write that took nothing.  The loop goes on: after the step the thread has
  returned only if \<open>pump_quit\<close> is set.
\<close>

theorem device_error_accepts_nothing:
  assumes "pump_thread st = InWritei len" and "reply < 0" and "alsa_buffer_length st \<noteq> 0"
  shows "pump_bottom len reply recovered st =
           Inr (st\<lparr>alsa_buffer_data_start :=
                      crem (alsa_buffer_data_start st) (alsa_buffer_length st),
                    alsa_buffer_read_length := 0\<rparr>) \<and>
         pump (WriteiReturns reply recovered) st = pump (WriteiReturns 0 recovered') st \<and>
         (\<exists>st'. pump (WriteiReturns reply recovered) st = Inr st' \<and>
                (pump_thread st' = Returned \<longleftrightarrow> pump_quit st))"
proof (intro conjI)
  have "snd_pcm_writei reply (snd_pcm_bytes_to_frames st len) \<le> 0"
    using assms(2) by (simp add: snd_pcm_writei_def)
  from pump_bottom_nothing_taken [OF this assms(3)]
  show b: "pump_bottom len reply recovered st =
           Inr (st\<lparr>alsa_buffer_data_start :=
                      crem (alsa_buffer_data_start st) (alsa_buffer_length st),
                    alsa_buffer_read_length := 0\<rparr>)" .
  have "snd_pcm_writei 0 (snd_pcm_bytes_to_frames st len) \<le> 0"
    by (simp add: snd_pcm_writei_def)
  from pump_bottom_nothing_taken [OF this assms(3)] b
  have "pump_bottom len 0 recovered' st = pump_bottom len reply recovered st"
    by simp
  then show "pump (WriteiReturns reply recovered) st = pump (WriteiReturns 0 recovered') st"
    using assms(1) by simp
  show "\<exists>st'. pump (WriteiReturns reply recovered) st = Inr st' \<and>
                (pump_thread st' = Returned \<longleftrightarrow> pump_quit st)"
    using assms(1) b by (simp add: pump_top_def Let_def)
qed

theorem device_error_accepts_nothing_witness:
  "pump_thread example_session = InWritei 4 \<and> (- 32 :: int) < 0 \<and>
   alsa_buffer_length example_session \<noteq> 0 \<and>
   pump_bottom 4 (- 32) (- 5) example_session =
     Inr (example_session\<lparr>alsa_buffer_data_start := 8, alsa_buffer_read_length := 0\<rparr>) \<and>
   pump (WriteiReturns (- 32) (- 5)) example_session = pump (WriteiReturns 0 0) example_session \<and>
   pump (WriteiReturns (- 32) (- 5)) example_session = Inr example_session \<and>
   pump_thread example_session \<noteq> Returned \<and> \<not> pump_quit example_session"
proof -
  have a: "pump_thread example_session = InWritei 4" "(- 32 :: int) < 0"
    "alsa_buffer_length example_session \<noteq> 0"
    by (simp_all add: example_session_def)
  have c: "crem (alsa_buffer_data_start example_session) (alsa_buffer_length example_session) = 8"
    by (simp add: example_session_def crem_def cdiv_def)
  have p: "pump (WriteiReturns (- 32) (- 5)) example_session = Inr example_session"
    by code_simp
  have q: "pump_thread example_session \<noteq> Returned \<and> \<not> pump_quit example_session"
    by (simp add: example_session_def)
  note d = device_error_accepts_nothing [OF a, of "- 5" 0, unfolded c]
  from d have d1: "pump_bottom 4 (- 32) (- 5) example_session =
     Inr (example_session\<lparr>alsa_buffer_data_start := 8, alsa_buffer_read_length := 0\<rparr>)"
    by (rule conjunct1)
  from d have d2: "pump (WriteiReturns (- 32) (- 5)) example_session =
      pump (WriteiReturns 0 0) example_session"
    by (elim conjE)
  from a d1 d2 p q show ?thesis by (simp only: simp_thms)
qed



text \<open>
  C9.  With a mono mixer element and the mixer calls succeeding,
  \<open>alsa_set_volume (80, 60)\<close> sets the one playback channel to the maximum, 80, and
  turns the playback switch on if there is one; \<open>alsa_get_volume\<close> then gives
  (80, 80).
\<close>

theorem mono_set_volume_80_60:
  assumes "alsa_mixer (alsa_soft_init found ms) = Some el" and "is_playback_mono el"
    and "0 \<le> r_volume_left rs" and "0 \<le> r_switch_left rs"
    and "0 \<le> r_handle_events rs'" and "0 \<le> r_volume_left rs'"
  shows "\<exists>el'. alsa_mixer (alsa_set_volume 80 60 found rs ms) = Some el' \<and>
           playback_volume el' SND_MIXER_SCHN_MONO = max 80 60 \<and>
           (has_playback_switch el \<longrightarrow> playback_switch el' SND_MIXER_SCHN_MONO) \<and>
           fst (alsa_get_volume found' rs' (alsa_set_volume 80 60 found rs ms)) = (80, 80)"
proof -
  have i: "initted (alsa_soft_init found ms)"
    by (simp add: alsa_soft_init_def)
  then have j: "alsa_soft_init found' (alsa_soft_init found ms\<lparr>alsa_mixer := x\<rparr>) =
      alsa_soft_init found ms\<lparr>alsa_mixer := x\<rparr>" for x
    by (simp add: alsa_soft_init_def)
  show ?thesis
    using assms
    by (simp add: alsa_set_volume_def alsa_get_volume_def Let_def j CHECK_def
        snd_mixer_selem_set_playback_volume_def snd_mixer_selem_set_playback_switch_def
        snd_mixer_selem_get_playback_volume_def int_of_int64_def)
qed

theorem mono_set_volume_80_60_witness:
  "alsa_mixer (alsa_soft_init None \<lparr>initted = True, alsa_mixer = Some mono_element\<rparr>) =
     Some mono_element \<and>
   is_playback_mono mono_element \<and> has_playback_switch mono_element \<and>
   0 \<le> r_volume_left calls_succeed \<and> 0 \<le> r_switch_left calls_succeed \<and>
   0 \<le> r_handle_events calls_succeed \<and>
   alsa_mixer (alsa_set_volume 80 60 None calls_succeed
      \<lparr>initted = True, alsa_mixer = Some mono_element\<rparr>) =
     Some (mono_element\<lparr>playback_volume := (\<lambda>_. 25)(SND_MIXER_SCHN_MONO := 80),
             playback_switch := (\<lambda>_. False)(SND_MIXER_SCHN_MONO := True)\<rparr>) \<and>
   fst (alsa_get_volume None calls_succeed
     (alsa_set_volume 80 60 None calls_succeed
        \<lparr>initted = True, alsa_mixer = Some mono_element\<rparr>)) = (80, 80)"
proof -
  let ?ms = "\<lparr>initted = True, alsa_mixer = Some mono_element\<rparr>"
  have a: "alsa_mixer (alsa_soft_init None ?ms) = Some mono_element"
    "is_playback_mono mono_element"
    "0 \<le> r_volume_left calls_succeed" "0 \<le> r_switch_left calls_succeed"
    "0 \<le> r_handle_events calls_succeed" "0 \<le> r_volume_left calls_succeed"
    by (simp_all add: alsa_soft_init_def mono_element_def calls_succeed_def)
  have s: "has_playback_switch mono_element" by (simp add: mono_element_def)
  have v: "alsa_mixer (alsa_set_volume 80 60 None calls_succeed ?ms) =
     Some (mono_element\<lparr>playback_volume := (\<lambda>_. 25)(SND_MIXER_SCHN_MONO := 80),
             playback_switch := (\<lambda>_. False)(SND_MIXER_SCHN_MONO := True)\<rparr>)"
    by (simp add: alsa_set_volume_def alsa_soft_init_def Let_def CHECK_def mono_element_def
        calls_succeed_def snd_mixer_selem_set_playback_volume_def
        snd_mixer_selem_set_playback_switch_def)
  from mono_set_volume_80_60 [OF a, of None]
  have "fst (alsa_get_volume None calls_succeed
     (alsa_set_volume 80 60 None calls_succeed ?ms)) = (80, 80)"
    by blast
  with a s v show ?thesis by (simp only: simp_thms)
qed

text \<open>
  C10, as amended.  When \<open>alsa_flush (t)\<close> has returned the session is paused with the
  snapshot \<open>t\<close>, and \<open>alsa_output_time\<close> returns \<open>t\<close>, at once and across any undisturbed
  sequence of calls.  The value changes only in these ways: a write or drain that has
  to wait restarts playback, and the output time is the running one again;
  \<open>alsa_pause (1)\<close> takes a new snapshot; another \<open>alsa_flush (t')\<close> sets it to \<open>t'\<close>.
\<close>

theorem flush_freezes_output_time:
  assumes "alsa_flush t env st = Inr st1"
    and "undisturbed ops st1"
    and "run ops st1 = Inr st2"
  shows "alsa_paused st2 \<and> alsa_paused_time st2 = t \<and>
         alsa_output_time status st2 = Inr t \<and>
         (\<forall>op st3. has_to_wait op st2 \<and> exec op st2 = Inr st3 \<longrightarrow>
            \<not> alsa_paused st3 \<and> alsa_output_time status st3 = real_output_time status st3) \<and>
         (\<forall>s st3. alsa_pause True s st2 = Inr st3 \<longrightarrow>
            alsa_paused st3 \<and> real_output_time s st2 = Inr (alsa_paused_time st3) \<and>
            alsa_output_time status st3 = Inr (alsa_paused_time st3)) \<and>
         (\<forall>t' env' st3. alsa_flush t' env' st2 = Inr st3 \<longrightarrow>
            alsa_paused st3 \<and> alsa_output_time status st3 = Inr t')"
proof -
  have "pause_state st1 = (True, t)"
    using alsa_flush_result(1) [OF assms(1)] by (simp add: clock_def pause_state_def)
  from frozen_until [OF this assms(2,3)] show ?thesis .
qed

theorem flush_freezes_output_time_witness:
  "alsa_flush 1234 [[WriteiReturns 1 0]] example_session = Inr example_flushed \<and>
   undisturbed [Drain [[Wake]], Feeder [Wake], SetWrittenTime 7, Write [1, 2, 3, 4] [[Wake]]]
     example_flushed \<and>
   run [Drain [[Wake]], Feeder [Wake], SetWrittenTime 7, Write [1, 2, 3, 4] [[Wake]]]
     example_flushed = Inr example_buffering \<and>
   alsa_paused example_buffering \<and> alsa_paused_time example_buffering = 1234 \<and>
   alsa_output_time (Some 0) example_buffering = Inr 1234 \<and>
   has_to_wait (Drain [[Wake, WriteiReturns 1 0]]) example_buffering \<and>
   exec (Drain [[Wake, WriteiReturns 1 0]]) example_buffering =
     Inr (example_buffering\<lparr>alsa_buffer_data_start := 4, alsa_buffer_data_length := 0,
            alsa_paused := False, pcm_played := [9, 10, 11, 12, 1, 2, 3, 4]\<rparr>) \<and>
   \<not> alsa_paused
     (example_buffering\<lparr>alsa_buffer_data_start := 4, alsa_buffer_data_length := 0,
        alsa_paused := False, pcm_played := [9, 10, 11, 12, 1, 2, 3, 4]\<rparr>) \<and>
   alsa_pause True (Some 44100) example_buffering =
     Inr (example_buffering\<lparr>alsa_paused_time := - 993\<rparr>) \<and>
   alsa_output_time (Some 0) (example_buffering\<lparr>alsa_paused_time := - 993\<rparr>) = Inr (- 993) \<and>
   alsa_flush 99 [] example_buffering =
     Inr (example_buffering\<lparr>alsa_buffer_data_length := 0, alsa_time := 99000,
            alsa_paused_time := 99\<rparr>) \<and>
   alsa_output_time (Some 0)
     (example_buffering\<lparr>alsa_buffer_data_length := 0, alsa_time := 99000,
        alsa_paused_time := 99\<rparr>) = Inr 99"
proof -
  let ?ops = "[Drain [[Wake]], Feeder [Wake], SetWrittenTime 7, Write [1, 2, 3, 4] [[Wake]]]"
  let ?d = "Drain [[Wake, WriteiReturns 1 0]]"
  let ?r = "example_buffering\<lparr>alsa_buffer_data_start := 4, alsa_buffer_data_length := 0,
            alsa_paused := False, pcm_played := [9, 10, 11, 12, 1, 2, 3, 4]\<rparr>"
  let ?p = "example_buffering\<lparr>alsa_paused_time := - 993\<rparr>"
  let ?f = "example_buffering\<lparr>alsa_buffer_data_length := 0, alsa_time := 99000,
            alsa_paused_time := 99\<rparr>"
  have u: "undisturbed ?ops example_flushed" by code_simp
  have r: "run ?ops example_flushed = Inr example_buffering" by code_simp
  have h: "has_to_wait ?d example_buffering" by code_simp
  have e: "exec ?d example_buffering = Inr ?r" by code_simp
  have p: "alsa_pause True (Some 44100) example_buffering = Inr ?p" by code_simp
  have pt: "alsa_paused_time ?p = - 993" by simp
  have f: "alsa_flush 99 [] example_buffering = Inr ?f" by code_simp
  note c = flush_freezes_output_time [OF example_flush u r, of "Some 0"]
  from c have 1: "alsa_paused example_buffering"
    and 2: "alsa_paused_time example_buffering = 1234"
    and 3: "alsa_output_time (Some 0) example_buffering = Inr 1234"
    by blast+
  from c h e have 4: "\<not> alsa_paused ?r"
    by blast
  from c p have "alsa_output_time (Some 0) ?p = Inr (alsa_paused_time ?p)"
    by blast
  then have 5: "alsa_output_time (Some 0) ?p = Inr (- 993)"
    by (simp only: pt)
  from c f have 6: "alsa_output_time (Some 0) ?f = Inr 99"
    by blast
  from example_flush u r 1 2 3 h e 4 p 5 f 6 show ?thesis
    by (simp only: simp_thms)
qed

text \<open>
  C10, as stated, fails: after \<open>alsa_flush (1234)\<close>, with no write and no drain, an
  \<open>alsa_pause (1)\<close> while the hardware reports one second of delay stores a new
  snapshot; the session is still paused, playback has not been restarted, and
  \<open>alsa_output_time\<close> returns 234 instead of 1234.
\<close>

theorem pause_after_flush_takes_new_snapshot:
  "alsa_flush 1234 [[WriteiReturns 1 0]] example_session = Inr example_flushed \<and>
   alsa_output_time (Some 0) example_flushed = Inr 1234 \<and>
   alsa_pause True (Some 44100) example_flushed =
     Inr (example_flushed\<lparr>alsa_paused_time := 234\<rparr>) \<and>
   alsa_paused (example_flushed\<lparr>alsa_paused_time := 234\<rparr>) \<and>
   alsa_output_time (Some 0) (example_flushed\<lparr>alsa_paused_time := 234\<rparr>) = Inr 234"
  by code_simp

end
